theory Spec2Isabelle
  imports Complex_Main
begin

section \<open>Values and strings of the host language\<close>

text \<open>
  A request body is loosely typed JSON.  Objects are association lists of their entries;
  the entries of a parsed object have distinct keys.
\<close>

datatype json =
    JNull
  | JBool bool
  | JNum rat
  | JStr string
  | JArr "json list"
  | JObj "(string \<times> json) list"

text \<open>
  Strings are lists of code units in the range 0 to 255.  The white space that
  \<^verbatim>\<open>String.prototype.trim\<close> strips in that range: TAB, LF, VT, FF, CR, SPACE and
  NO-BREAK SPACE.
\<close>

definition isWhiteSpace :: "char \<Rightarrow> bool" where
  "isWhiteSpace c \<longleftrightarrow> (of_char c :: nat) \<in> {9, 10, 11, 12, 13, 32, 160}"

definition trim :: "string \<Rightarrow> string" where
  "trim s = rev (dropWhile isWhiteSpace (rev (dropWhile isWhiteSpace s)))"

section \<open>Regular expressions\<close>

text \<open>
  The fragment of the pattern language that \<^verbatim>\<open>IPV4_REGEX\<close> uses: a literal
  character, a class \<^verbatim>\<open>[a-b]\<close>, \<^verbatim>\<open>\d\<close>, sequence, alternative, \<^verbatim>\<open>?\<close> and a
  fixed repetition \<^verbatim>\<open>{n}\<close>, which is an n-fold sequence.
\<close>

datatype regex =
    Lit char
  | Cls char char
  | Dgt
  | Cat regex regex
  | Alt regex regex
  | Opt regex
  | Eps

definition inClass :: "char \<Rightarrow> char \<Rightarrow> char \<Rightarrow> bool" where
  "inClass lo hi c \<longleftrightarrow> (of_char lo :: nat) \<le> of_char c \<and> (of_char c :: nat) \<le> of_char hi"

definition isDigit :: "char \<Rightarrow> bool" where
  "isDigit c = inClass CHR ''0'' CHR ''9'' c"

primrec repeated :: "nat \<Rightarrow> regex \<Rightarrow> regex" where
  "repeated 0 r = Eps"
| "repeated (Suc n) r = Cat r (repeated n r)"

text \<open>
  A backtracking matcher: \<open>matchPrefix r s\<close> lists, in the order the engine tries them,
  the remainders of \<open>s\<close> after each prefix that \<open>r\<close> matches.
\<close>

fun oneChar :: "(char \<Rightarrow> bool) \<Rightarrow> string \<Rightarrow> string list" where
  "oneChar p [] = []"
| "oneChar p (c # cs) = (if p c then [cs] else [])"

primrec matchPrefix :: "regex \<Rightarrow> string \<Rightarrow> string list" where
  "matchPrefix (Lit a) s = oneChar (\<lambda>c. c = a) s"
| "matchPrefix (Cls lo hi) s = oneChar (inClass lo hi) s"
| "matchPrefix Dgt s = oneChar isDigit s"
| "matchPrefix (Cat r1 r2) s = concat (map (matchPrefix r2) (matchPrefix r1 s))"
| "matchPrefix (Alt r1 r2) s = matchPrefix r1 s @ matchPrefix r2 s"
| "matchPrefix (Opt r) s = matchPrefix r s @ [s]"
| "matchPrefix Eps s = [s]"

text \<open>\<^verbatim>\<open>/^r$/.test(s)\<close>: some match of \<open>r\<close> from the start of \<open>s\<close> ends at its end.\<close>

definition testAnchored :: "regex \<Rightarrow> string \<Rightarrow> bool" where
  "testAnchored r s \<longleftrightarrow> [] \<in> set (matchPrefix r s)"

section \<open>Validation (src/resolvers/validation.ts)\<close>

text \<open>\<^verbatim>\<open>(25[0-5]|2[0-4]\d|1\d\d|[1-9]?\d)\<close>\<close>

definition OCTET :: regex where
  "OCTET =
     Alt (Cat (Lit CHR ''2'') (Cat (Lit CHR ''5'') (Cls CHR ''0'' CHR ''5'')))
    (Alt (Cat (Lit CHR ''2'') (Cat (Cls CHR ''0'' CHR ''4'') Dgt))
    (Alt (Cat (Lit CHR ''1'') (Cat Dgt Dgt))
         (Cat (Opt (Cls CHR ''1'' CHR ''9'')) Dgt)))"

text \<open>\<^verbatim>\<open>/^(25[0-5]|2[0-4]\d|1\d\d|[1-9]?\d)(\.(25[0-5]|2[0-4]\d|1\d\d|[1-9]?\d)){3}$/\<close>\<close>

definition IPV4_REGEX :: regex where
  "IPV4_REGEX = Cat OCTET (repeated 3 (Cat (Lit CHR ''.'') OCTET))"

definition IPV4_REGEX_test :: "string \<Rightarrow> bool" where
  "IPV4_REGEX_test s = testAnchored IPV4_REGEX s"

text \<open>
  \<^verbatim>\<open>ResolverPayload\<close>: a partial record of the four updatable fields; \<open>None\<close> is an
  absent key.
\<close>

record ResolverPayload =
  provider_opt :: "string option"
  hostname_opt :: "string option"
  alias_opt :: "string option"
  ipv4_opt :: "string option"

record options =
  requireProvider :: bool
  requireHostname :: bool
  requireAnyField :: bool

record validation =
  fields_v :: ResolverPayload
  errors_v :: "string list"

definition noFields :: ResolverPayload where
  "noFields = \<lparr>provider_opt = None, hostname_opt = None, alias_opt = None, ipv4_opt = None\<rparr>"

text \<open>\<^verbatim>\<open>typeof v === "string" ? v.trim() : ""\<close>\<close>

fun trimmedString :: "json \<Rightarrow> string" where
  "trimmedString (JStr s) = trim s"
| "trimmedString _ = []"

definition push :: "string \<Rightarrow> validation \<Rightarrow> validation" where
  "push e v = v\<lparr>errors_v := errors_v v @ [e]\<rparr>"

text \<open>\<^verbatim>\<open>Object.keys(fields).length\<close>\<close>

definition keyCount :: "ResolverPayload \<Rightarrow> nat" where
  "keyCount f =
     length (filter (\<lambda>x. x \<noteq> None) [provider_opt f, hostname_opt f, alias_opt f, ipv4_opt f])"

definition checkProvider :: "(string \<rightharpoonup> json) \<Rightarrow> options \<Rightarrow> validation \<Rightarrow> validation" where
  "checkProvider body opts v =
     (case body ''provider'' of
        Some x \<Rightarrow>
          (let p = trimmedString x in
           if p = [] then push ''provider cannot be empty'' v
           else v\<lparr>fields_v := (fields_v v)\<lparr>provider_opt := Some p\<rparr>\<rparr>)
      | None \<Rightarrow>
          if requireProvider opts then push ''provider is required'' v else v)"

definition checkHostname :: "(string \<rightharpoonup> json) \<Rightarrow> options \<Rightarrow> validation \<Rightarrow> validation" where
  "checkHostname body opts v =
     (case body ''hostname'' of
        Some x \<Rightarrow>
          (let h = trimmedString x in
           if h = [] then push ''hostname cannot be empty'' v
           else v\<lparr>fields_v := (fields_v v)\<lparr>hostname_opt := Some h\<rparr>\<rparr>)
      | None \<Rightarrow>
          if requireHostname opts then push ''hostname is required'' v else v)"

definition checkAlias :: "(string \<rightharpoonup> json) \<Rightarrow> validation \<Rightarrow> validation" where
  "checkAlias body v =
     (case body ''alias'' of
        Some x \<Rightarrow> v\<lparr>fields_v := (fields_v v)\<lparr>alias_opt := Some (trimmedString x)\<rparr>\<rparr>
      | None \<Rightarrow> v)"

definition checkIpv4 :: "(string \<rightharpoonup> json) \<Rightarrow> validation \<Rightarrow> validation" where
  "checkIpv4 body v =
     (case body ''ipv4'' of
        Some x \<Rightarrow>
          (let i = trimmedString x in
           if i \<noteq> [] \<and> \<not> IPV4_REGEX_test i
           then push ''ipv4 must be a valid IPv4 address'' v
           else v\<lparr>fields_v := (fields_v v)\<lparr>ipv4_opt := Some i\<rparr>\<rparr>)
      | None \<Rightarrow> v)"

definition checkAnyField :: "options \<Rightarrow> validation \<Rightarrow> validation" where
  "checkAnyField opts v =
     (if requireAnyField opts \<and> keyCount (fields_v v) = 0
      then push ''At least one updatable field (provider, hostname, alias, ipv4) is required'' v
      else v)"

definition validateResolverPayload :: "(string \<rightharpoonup> json) \<Rightarrow> options \<Rightarrow> validation" where
  "validateResolverPayload body opts =
     checkAnyField opts
       (checkIpv4 body
         (checkAlias body
           (checkHostname body opts
             (checkProvider body opts \<lparr>fields_v = noFields, errors_v = []\<rparr>))))"


section \<open>The resolver table (db/schema)\<close>

type_synonym timestamp = string

text \<open>
  A row of the table \<^verbatim>\<open>resolvers\<close>.  The columns \<^verbatim>\<open>id\<close> and \<^verbatim>\<open>alias\<close> carry a
  prime here; \<^verbatim>\<open>is_deleted\<close> is an integer column holding 0 or 1.
\<close>

record ResolverRow =
  id' :: nat
  provider :: string
  hostname :: string
  alias' :: string
  ipv4 :: string
  isDeleted :: int
  mtime :: timestamp
  ctime :: timestamp

text \<open>
  The scope of the unique index on (provider, hostname): every row, or only the rows
  that are not deleted.
\<close>

datatype index_scope = AllRows | LiveRows

text \<open>
  The database: the rows in insertion order, the largest id the autoincrement sequence
  has handed out, and the scope of the unique index.
\<close>

record database =
  rows :: "ResolverRow list"
  sequence :: nat
  uniqueIndex :: index_scope

datatype db_error = UniqueConstraintFailed | NotNullConstraintFailed

text \<open>
  Modelled from the spec: the migration that creates the unique index on
  (provider, hostname) is missing from the sources (the schema declaration lists no
  index, while both handlers catch the engine's \<^verbatim>\<open>UNIQUE constraint failed\<close>).  The
  spec has the store reject a write that would give two rows the same pair, and leaves
  open whether the index covers every row or only the rows that are not deleted; the
  scope is therefore a parameter of the database.  \<open>indexed\<close> says whether a row has
  an entry in the index.
\<close>

definition indexed :: "index_scope \<Rightarrow> ResolverRow \<Rightarrow> bool" where
  "indexed sc r = (case sc of AllRows \<Rightarrow> True | LiveRows \<Rightarrow> isDeleted r = 0)"

text \<open>
  Modelled from the spec: the uniqueness check of that missing index.  Writing the
  index entry of row \<open>r\<close> fails when another row, one with a different id, holds an
  entry with the same pair.
\<close>

definition collides :: "database \<Rightarrow> ResolverRow \<Rightarrow> bool" where
  "collides d r \<longleftrightarrow>
     indexed (uniqueIndex d) r \<and>
     list_ex (\<lambda>x. indexed (uniqueIndex d) x \<and> id' x \<noteq> id' r \<and>
                   provider x = provider r \<and> hostname x = hostname r) (rows d)"

definition nextId :: "database \<Rightarrow> nat" where
  "nextId d = Suc (fold max (map id' (rows d)) (sequence d))"

text \<open>
  \<^verbatim>\<open>db.insert(resolvers).values({provider, hostname, alias, ipv4}).returning()\<close>: the other
  columns take their defaults; an undefined value for a NOT NULL column without default
  is refused.
\<close>

definition dbInsert ::
  "timestamp \<Rightarrow> string option \<Rightarrow> string option \<Rightarrow> string \<Rightarrow> string \<Rightarrow> database
     \<Rightarrow> db_error + (ResolverRow list \<times> database)" where
  "dbInsert t p h a i d =
     (case (p, h) of
        (Some pv, Some hv) \<Rightarrow>
          (let r = \<lparr>id' = nextId d, provider = pv, hostname = hv, alias' = a, ipv4 = i,
                    isDeleted = 0, mtime = t, ctime = t\<rparr>
           in if collides d r then Inl UniqueConstraintFailed
              else Inr ([r], d\<lparr>rows := rows d @ [r], sequence := id' r\<rparr>))
      | _ \<Rightarrow> Inl NotNullConstraintFailed)"

text \<open>
  \<^verbatim>\<open>db.update(resolvers).set(...).where(...).returning()\<close>: every row that satisfies the
  condition is rewritten; the rewritten rows are returned.  \<open>keyed\<close> says that the
  statement assigns a column of the unique index.
\<close>

definition dbUpdate ::
  "(ResolverRow \<Rightarrow> bool) \<Rightarrow> (ResolverRow \<Rightarrow> ResolverRow) \<Rightarrow> bool \<Rightarrow> database
     \<Rightarrow> db_error + (ResolverRow list \<times> database)" where
  "dbUpdate cond assign keyed d =
     (if keyed \<and> list_ex (\<lambda>r. cond r \<and> collides d (assign r)) (rows d)
      then Inl UniqueConstraintFailed
      else Inr (map assign (filter cond (rows d)),
                d\<lparr>rows := map (\<lambda>r. if cond r then assign r else r) (rows d)\<rparr>))"

text \<open>\<^verbatim>\<open>db.select().from(resolvers).where(...)\<close>\<close>

definition dbSelect :: "(ResolverRow \<Rightarrow> bool) \<Rightarrow> database \<Rightarrow> ResolverRow list" where
  "dbSelect cond d = filter cond (rows d)"

section \<open>The DNS provider\<close>

record CloudflareDnsRecord =
  dns_id :: string
  dns_type :: string
  dns_name :: string
  content :: string
  ttl :: "nat option"
  proxied :: "bool option"

record cf_error =
  code :: "nat option"
  message :: "string option"

datatype cf_result = Records "CloudflareDnsRecord list" | Single CloudflareDnsRecord

record CloudflareApiResponse =
  success :: bool
  errors :: "cf_error list option"
  result :: "cf_result option"

text \<open>
  What \<^verbatim>\<open>response.json().catch(() => null)\<close> yields: \<open>NoJson\<close> for null, \<open>Other\<close> for a
  value without the key \<^verbatim>\<open>success\<close>, \<open>Cf\<close> for a value that \<^verbatim>\<open>isCloudflareResponse\<close>
  accepts.
\<close>

datatype payload = NoJson | Other | Cf CloudflareApiResponse

record response =
  ok :: bool
  data :: payload

record dns_body =
  body_type :: string
  body_name :: string
  body_content :: string
  body_ttl :: nat
  body_proxied :: bool

text \<open>
  The three requests that the updater sends, with the zone in their address:
  GET \<^verbatim>\<open>?type=A&name=...\<close>, POST, and PUT to the address of a record id.
\<close>

datatype request =
    ListRecords string string string
  | CreateRecord string dns_body
  | UpdateRecord string string dns_body

datatype fault =
    Unreachable
  | HttpFailure "cf_error list"
  | SoftFailure "cf_error list"
  | Garbled

text \<open>
  Modelled from the spec: the provider is an external service, specified only by its
  contract (list A-records by name, create, update by record id; a response carries a
  success flag and an optional error list).  Its state is the list of its records, the
  log of the requests it has received, each with the bearer token, and a queue that
  says for each coming request whether it meets a fault; a request that meets none, or
  finds the queue empty, is answered faithfully.
\<close>

record cloudflare =
  records :: "CloudflareDnsRecord list"
  calls :: "(string \<times> request) list"
  faults :: "fault option list"

definition freshId :: "CloudflareDnsRecord list \<Rightarrow> string" where
  "freshId rs = replicate (Suc (fold max (map (\<lambda>r. length (dns_id r)) rs) 0)) CHR ''r''"

definition written :: "dns_body \<Rightarrow> CloudflareDnsRecord \<Rightarrow> CloudflareDnsRecord" where
  "written b r =
     r\<lparr>dns_type := body_type b, dns_name := body_name b, content := body_content b,
       ttl := Some (body_ttl b), proxied := Some (body_proxied b)\<rparr>"

definition accepted :: "cf_result \<Rightarrow> response" where
  "accepted x = \<lparr>ok = True, data = Cf \<lparr>success = True, errors = Some [], result = Some x\<rparr>\<rparr>"

definition refused :: "bool \<Rightarrow> cf_error list \<Rightarrow> response" where
  "refused good es = \<lparr>ok = good, data = Cf \<lparr>success = False, errors = Some es, result = None\<rparr>\<rparr>"

fun answer :: "request \<Rightarrow> CloudflareDnsRecord list \<Rightarrow> response \<times> CloudflareDnsRecord list" where
  "answer (ListRecords z t n) rs =
     (accepted (Records (filter (\<lambda>r. dns_type r = t \<and> dns_name r = n) rs)), rs)"
| "answer (CreateRecord z b) rs =
     (let r = written b \<lparr>dns_id = freshId rs, dns_type = [], dns_name = [], content = [],
                         ttl = None, proxied = None\<rparr>
      in (accepted (Single r), rs @ [r]))"
| "answer (UpdateRecord z i b) rs =
     (case filter (\<lambda>r. dns_id r = i) rs of
        [] \<Rightarrow> (refused False [\<lparr>code = Some 81044, message = Some ''Record does not exist.''\<rparr>], rs)
      | r # _ \<Rightarrow>
          (accepted (Single (written b r)),
           map (\<lambda>x. if dns_id x = i then written b x else x) rs))"

section \<open>The world outside a handler\<close>

datatype log_entry = Warn string | Error string

record world =
  db :: database
  cf :: cloudflare
  console :: "log_entry list"
  now :: timestamp

record Bindings =
  CLOUDFLARE_API_TOKEN :: "string option"
  CLOUDFLARE_ZONE_ID :: "string option"

text \<open>What a call can throw: an \<^verbatim>\<open>Error\<close> with its message, or the rejection of \<^verbatim>\<open>fetch\<close>.\<close>

datatype thrown = ErrorMsg string | NetworkError

text \<open>
  \<^verbatim>\<open>fetch\<close>: the request is logged and meets the next queued fault, if any.  A garbled
  answer is one whose body is not JSON; the provider has served the request.
\<close>

definition fetch :: "string \<Rightarrow> request \<Rightarrow> world \<Rightarrow> (thrown + response) \<times> world" where
  "fetch token rq w =
     (let c = cf w;
          c1 = c\<lparr>calls := calls c @ [(token, rq)], faults := tl (faults c)\<rparr>;
          (rsp, rs) = answer rq (records c)
      in case (case faults c of [] \<Rightarrow> None | x # _ \<Rightarrow> x) of
           None \<Rightarrow> (Inr rsp, w\<lparr>cf := c1\<lparr>records := rs\<rparr>\<rparr>)
         | Some Unreachable \<Rightarrow> (Inl NetworkError, w\<lparr>cf := c1\<rparr>)
         | Some (HttpFailure es) \<Rightarrow> (Inr (refused False es), w\<lparr>cf := c1\<rparr>)
         | Some (SoftFailure es) \<Rightarrow> (Inr (refused True es), w\<lparr>cf := c1\<rparr>)
         | Some Garbled \<Rightarrow> (Inr \<lparr>ok = True, data = NoJson\<rparr>, w\<lparr>cf := c1\<lparr>records := rs\<rparr>\<rparr>))"


section \<open>DNS reconciliation (src/dns/updater.ts)\<close>

function showNat :: "nat \<Rightarrow> string" where
  "showNat n =
     (if n < 10 then [char_of (48 + n)] else showNat (n div 10) @ [char_of (48 + n mod 10)])"
  by pat_completeness auto
termination
  by (relation "measure (\<lambda>n. n)") auto

declare showNat.simps [simp del]

fun joinStrings :: "string \<Rightarrow> string list \<Rightarrow> string" where
  "joinStrings sep [] = []"
| "joinStrings sep [x] = x"
| "joinStrings sep (x # y # ys) = x @ sep @ joinStrings sep (y # ys)"

text \<open>\<^verbatim>\<open>JSON.stringify\<close> of an error entry that has no message.\<close>

definition stringifyError :: "cf_error \<Rightarrow> string" where
  "stringifyError e =
     (case code e of None \<Rightarrow> ''{}'' | Some n \<Rightarrow> ''{\"code\":'' @ showNat n @ ''}'')"

definition isCloudflareResponse :: "payload \<Rightarrow> bool" where
  "isCloudflareResponse p = (case p of Cf r \<Rightarrow> True | _ \<Rightarrow> False)"

definition extractCloudflareError :: "payload \<Rightarrow> string" where
  "extractCloudflareError p =
     (case p of
        Cf r \<Rightarrow>
          (case errors r of
             None \<Rightarrow> []
           | Some es \<Rightarrow>
               if length es = 0 then []
               else joinStrings ''; ''
                      (map (\<lambda>e. case message e of Some m \<Rightarrow> m | None \<Rightarrow> stringifyError e) es))
      | _ \<Rightarrow> [])"

text \<open>\<^verbatim>\<open>data.success === false\<close> on a payload that is a provider response\<close>

definition successIsFalse :: "payload \<Rightarrow> bool" where
  "successIsFalse p = (case p of Cf r \<Rightarrow> \<not> success r | _ \<Rightarrow> False)"

definition withDetail :: "string \<Rightarrow> string \<Rightarrow> string" where
  "withDetail prefix msg = prefix @ (if msg \<noteq> [] then '': '' @ msg else [])"

definition fetchDnsRecord ::
  "string \<Rightarrow> string \<Rightarrow> string \<Rightarrow> world \<Rightarrow> (thrown + CloudflareDnsRecord option) \<times> world" where
  "fetchDnsRecord zoneId token host w =
     (case fetch token (ListRecords zoneId ''A'' host) w of
        (Inl e, w1) \<Rightarrow> (Inl e, w1)
      | (Inr rsp, w1) \<Rightarrow>
          if \<not> ok rsp \<or> (isCloudflareResponse (data rsp) \<and> successIsFalse (data rsp))
          then (Inl (ErrorMsg (withDetail (''Failed to fetch DNS record for '' @ host)
                                 (extractCloudflareError (data rsp)))), w1)
          else (case data rsp of
                  Cf r \<Rightarrow>
                    (case result r of
                       Some (Records xs) \<Rightarrow> (Inr (case xs of [] \<Rightarrow> None | x # _ \<Rightarrow> Some x), w1)
                     | _ \<Rightarrow> (Inr None, w1))
                | _ \<Rightarrow> (Inr None, w1)))"

text \<open>An unset binding and an empty one are both falsy.\<close>

definition orEmpty :: "string option \<Rightarrow> string" where
  "orEmpty x = (case x of None \<Rightarrow> [] | Some s \<Rightarrow> s)"

definition syncDnsRecord ::
  "Bindings \<Rightarrow> string \<Rightarrow> string \<Rightarrow> world \<Rightarrow> (thrown + unit) \<times> world" where
  "syncDnsRecord env host ip w =
     (if ip = [] then (Inr (), w)
      else
        let token = orEmpty (CLOUDFLARE_API_TOKEN env);
            zoneId = orEmpty (CLOUDFLARE_ZONE_ID env)
        in if token = [] \<or> zoneId = []
           then (Inr (),
                 w\<lparr>console := console w @
                    [Warn (''Skipping DNS sync for '' @ host @
                       '' because CLOUDFLARE_API_TOKEN or CLOUDFLARE_ZONE_ID is not set.'')]\<rparr>)
           else
             (case fetchDnsRecord zoneId token host w of
                (Inl e, w1) \<Rightarrow> (Inl e, w1)
              | (Inr existing, w1) \<Rightarrow>
                  if (case existing of Some x \<Rightarrow> content x = ip | None \<Rightarrow> False)
                  then (Inr (), w1)
                  else
                    let b = \<lparr>body_type = ''A'', body_name = host, body_content = ip,
                             body_ttl =
                               (case existing of
                                  Some x \<Rightarrow> (case ttl x of Some t \<Rightarrow> t | None \<Rightarrow> 1)
                                | None \<Rightarrow> 1),
                             body_proxied =
                               (case existing of
                                  Some x \<Rightarrow> (case proxied x of Some q \<Rightarrow> q | None \<Rightarrow> False)
                                | None \<Rightarrow> False)\<rparr>;
                        rq = (case existing of
                                Some x \<Rightarrow> UpdateRecord zoneId (dns_id x) b
                              | None \<Rightarrow> CreateRecord zoneId b)
                    in (case fetch token rq w1 of
                          (Inl e, w2) \<Rightarrow> (Inl e, w2)
                        | (Inr rsp, w2) \<Rightarrow>
                            if ok rsp \<and>
                               (\<not> isCloudflareResponse (data rsp) \<or> \<not> successIsFalse (data rsp))
                            then (Inr (), w2)
                            else (Inl (ErrorMsg
                                    (withDetail
                                       (''Failed to '' @
                                        (case existing of Some x \<Rightarrow> ''update'' | None \<Rightarrow> ''create'') @
                                        '' DNS record for '' @ host)
                                       (extractCloudflareError (data rsp)))), w2))))"


section \<open>Numbers of the host language\<close>

text \<open>
  A number is NaN, an infinity, or a finite value.  \<open>Number\<close> of a string follows the
  grammar of numeric string literals: optional white space around an optionally signed
  decimal literal with fraction and exponent, \<^verbatim>\<open>Infinity\<close>, or an unsigned binary,
  octal or hexadecimal integer; the empty string is 0, anything else NaN.  The value
  is the mathematical value of the literal, with the range of a double (overflow to an
  infinity, underflow to zero); the rounding of the mantissa to 53 bits is not modelled.
\<close>

datatype jsnum = NaN | PosInf | NegInf | Fin rat

definition digitValue :: "char \<Rightarrow> nat" where
  "digitValue c = of_char c - 48"

definition digitsValue :: "string \<Rightarrow> nat" where
  "digitsValue s = foldl (\<lambda>a c. 10 * a + digitValue c) 0 s"

definition inRange :: "rat \<Rightarrow> jsnum" where
  "inRange q =
     (if 2 ^ 1024 - 2 ^ 970 \<le> \<bar>q\<bar> then (if 0 < q then PosInf else NegInf)
      else if \<bar>q\<bar> \<le> 1 / 2 ^ 1075 then Fin 0
      else Fin q)"

definition scale10 :: "rat \<Rightarrow> int \<Rightarrow> rat" where
  "scale10 q e = (if 0 \<le> e then q * 10 ^ nat e else q / 10 ^ nat (- e))"

definition signedInteger :: "string \<Rightarrow> int option" where
  "signedInteger s =
     (let ds = (case s of
                  [] \<Rightarrow> []
                | c # t \<Rightarrow> if c = CHR ''+'' \<or> c = CHR ''-'' then t else s)
      in if ds \<noteq> [] \<and> list_all isDigit ds
         then Some (case s of
                      [] \<Rightarrow> 0
                    | c # t \<Rightarrow> if c = CHR ''-'' then - int (digitsValue ds)
                               else int (digitsValue ds))
         else None)"

definition unsignedDecimal :: "string \<Rightarrow> rat option" where
  "unsignedDecimal s =
     (let ip = takeWhile isDigit s;
          r1 = dropWhile isDigit s;
          dot = (case r1 of [] \<Rightarrow> False | c # t \<Rightarrow> c = CHR ''.'');
          fp = (if dot then takeWhile isDigit (tl r1) else []);
          r2 = (if dot then dropWhile isDigit (tl r1) else r1);
          m = of_nat (digitsValue ip) + of_nat (digitsValue fp) / 10 ^ length fp
      in if ip = [] \<and> fp = [] then None
         else (case r2 of
                 [] \<Rightarrow> Some m
               | c # t \<Rightarrow>
                   if c = CHR ''e'' \<or> c = CHR ''E''
                   then map_option (scale10 m) (signedInteger t)
                   else None))"

definition signedDecimal :: "string \<Rightarrow> jsnum" where
  "signedDecimal s =
     (let neg = (case s of [] \<Rightarrow> False | c # t \<Rightarrow> c = CHR ''-'');
          u = (case s of
                 [] \<Rightarrow> []
               | c # t \<Rightarrow> if c = CHR ''+'' \<or> c = CHR ''-'' then t else s)
      in if u = ''Infinity'' then (if neg then NegInf else PosInf)
         else (case unsignedDecimal u of
                 None \<Rightarrow> NaN
               | Some q \<Rightarrow> inRange (if neg then - q else q)))"

definition radixDigit :: "char \<Rightarrow> nat" where
  "radixDigit c =
     (if isDigit c then of_char c - 48
      else if inClass CHR ''a'' CHR ''f'' c then of_char c - 87
      else if inClass CHR ''A'' CHR ''F'' c then of_char c - 55
      else 16)"

definition nonDecimal :: "string \<Rightarrow> jsnum option" where
  "nonDecimal s =
     (case s of
        z # x # ds \<Rightarrow>
          (let b = (if x = CHR ''x'' \<or> x = CHR ''X'' then 16
                    else if x = CHR ''o'' \<or> x = CHR ''O'' then 8
                    else if x = CHR ''b'' \<or> x = CHR ''B'' then 2
                    else (0::nat))
           in if z = CHR ''0'' \<and> 0 < b
              then Some (if ds \<noteq> [] \<and> list_all (\<lambda>c. radixDigit c < b) ds
                         then inRange (of_nat (foldl (\<lambda>a c. b * a + radixDigit c) 0 ds))
                         else NaN)
              else None)
      | _ \<Rightarrow> None)"

definition StringToNumber :: "string \<Rightarrow> jsnum" where
  "StringToNumber s =
     (let t = trim s
      in if t = [] then Fin 0
         else (case nonDecimal t of Some v \<Rightarrow> v | None \<Rightarrow> signedDecimal t))"

text \<open>\<^verbatim>\<open>Number(value)\<close> for a string or null.\<close>

definition Number :: "string option \<Rightarrow> jsnum" where
  "Number v = (case v of None \<Rightarrow> Fin 0 | Some s \<Rightarrow> StringToNumber s)"

section \<open>Request helpers (utils/request, utils/http)\<close>

record ResolverDto =
  dto_id :: nat
  dto_provider :: string
  dto_hostname :: string
  dto_alias :: string
  dto_ipv4 :: string
  dto_isDeleted :: bool
  dto_mtime :: timestamp
  dto_ctime :: timestamp

text \<open>The JSON bodies that the service sends.\<close>

datatype reply =
    ErrorReply string "string list option"
  | RecordReply ResolverDto
  | ListReply "ResolverDto list" int int nat
  | ServiceReply
  | HealthReply

record http_response =
  status :: nat
  sent :: reply

definition jsonResponse :: "reply \<Rightarrow> nat \<Rightarrow> http_response" where
  "jsonResponse b st = \<lparr>status = st, sent = b\<rparr>"

definition jsonError :: "string \<Rightarrow> nat \<Rightarrow> string list option \<Rightarrow> http_response" where
  "jsonError msg st extra = jsonResponse (ErrorReply msg extra) st"

text \<open>
  The text of a request body, by what \<^verbatim>\<open>readJsonBody\<close> asks of it: white space only,
  text that \<^verbatim>\<open>JSON.parse\<close> rejects, or text that parses to a value.
\<close>

datatype body_text = Blank | Unparsable | Parses json

definition falsy :: "json \<Rightarrow> bool" where
  "falsy v = (v = JNull \<or> v = JBool False \<or> v = JNum 0 \<or> v = JStr [])"

fun typeofObject :: "json \<Rightarrow> bool" where
  "typeofObject JNull = True"
| "typeofObject (JArr xs) = True"
| "typeofObject (JObj kvs) = True"
| "typeofObject _ = False"

fun isArray :: "json \<Rightarrow> bool" where
  "isArray (JArr xs) = True"
| "isArray _ = False"

fun entries :: "json \<Rightarrow> (string \<rightharpoonup> json)" where
  "entries (JObj kvs) = map_of kvs"
| "entries _ = Map.empty"

definition readJsonBody :: "body_text \<Rightarrow> http_response + (string \<rightharpoonup> json)" where
  "readJsonBody raw =
     (case raw of
        Blank \<Rightarrow> Inl (jsonError ''Request body is required'' 400 None)
      | Unparsable \<Rightarrow> Inl (jsonError ''Invalid JSON payload'' 400 None)
      | Parses v \<Rightarrow>
          if falsy v \<or> \<not> typeofObject v \<or> isArray v
          then Inl (jsonError ''Body must be a JSON object'' 400 None)
          else Inr (entries v))"

definition toLower :: "char \<Rightarrow> char" where
  "toLower c =
     (if inClass CHR ''A'' CHR ''Z'' c \<or>
         (inClass (CHR 0xC0) (CHR 0xDE) c \<and> c \<noteq> CHR 0xD7)
      then char_of (of_char c + (32::nat)) else c)"

definition parseBoolean :: "string option \<Rightarrow> bool" where
  "parseBoolean v =
     (case v of
        None \<Rightarrow> False
      | Some s \<Rightarrow> map toLower (trim s) \<in> set [''1'', ''true'', ''yes'', ''on''])"

definition optionalString :: "string option \<Rightarrow> string option" where
  "optionalString v =
     (case v of
        None \<Rightarrow> None
      | Some s \<Rightarrow> (let trimmed = trim s in if length trimmed \<noteq> 0 then Some trimmed else None))"

definition isFinite :: "jsnum \<Rightarrow> bool" where
  "isFinite x = (case x of Fin q \<Rightarrow> True | _ \<Rightarrow> False)"

definition valueOf :: "jsnum \<Rightarrow> rat" where
  "valueOf x = (case x of Fin q \<Rightarrow> q | _ \<Rightarrow> 0)"

definition parseLimit :: "string option \<Rightarrow> int \<Rightarrow> int \<Rightarrow> int" where
  "parseLimit v fallback mx =
     (let parsed = Number v
      in if \<not> isFinite parsed \<or> valueOf parsed \<le> 0 then fallback
         else min \<lfloor>valueOf parsed\<rfloor> mx)"

definition parseOffset :: "string option \<Rightarrow> int" where
  "parseOffset v =
     (let parsed = Number v
      in if \<not> isFinite parsed \<or> valueOf parsed < 0 then 0
         else \<lfloor>valueOf parsed\<rfloor>)"

definition parseResolverIdParam :: "string option \<Rightarrow> nat option" where
  "parseResolverIdParam v =
     (case v of
        None \<Rightarrow> None
      | Some s \<Rightarrow>
          (let n = Number (Some s)
           in if \<not> (isFinite n \<and> of_int \<lfloor>valueOf n\<rfloor> = valueOf n) \<or> valueOf n < 1 then None
              else Some (nat \<lfloor>valueOf n\<rfloor>)))"


section \<open>The resolver handlers (resolvers/controller)\<close>

definition toResolverDto :: "ResolverRow \<Rightarrow> ResolverDto" where
  "toResolverDto r =
     \<lparr>dto_id = id' r, dto_provider = provider r, dto_hostname = hostname r,
      dto_alias = alias' r, dto_ipv4 = ipv4 r, dto_isDeleted = (isDeleted r = 1),
      dto_mtime = mtime r, dto_ctime = ctime r\<rparr>"

text \<open>The condition \<^verbatim>\<open>and(eq(resolvers.id, id), eq(resolvers.isDeleted, 0))\<close>\<close>

definition live :: "nat \<Rightarrow> ResolverRow \<Rightarrow> bool" where
  "live i r \<longleftrightarrow> id' r = i \<and> isDeleted r = 0"

text \<open>\<^verbatim>\<open>rows[0] ?? null\<close> after \<^verbatim>\<open>limit(1)\<close>\<close>

definition findResolverById :: "nat \<Rightarrow> bool \<Rightarrow> world \<Rightarrow> ResolverRow option" where
  "findResolverById i includeDeleted w =
     (let whereClause = (if includeDeleted then (\<lambda>r. id' r = i) else live i)
      in case take 1 (dbSelect whereClause (db w)) of
           [] \<Rightarrow> None
         | r # _ \<Rightarrow> Some r)"

definition listResolversHandler :: "(string \<rightharpoonup> string) \<Rightarrow> world \<Rightarrow> http_response \<times> world" where
  "listResolversHandler params w =
     (let includeDeleted = parseBoolean (params ''includeDeleted'');
          providerFilter = optionalString (params ''provider'');
          hostnameFilter = optionalString (params ''hostname'');
          limit = parseLimit (params ''limit'') 100 500;
          offset = parseOffset (params ''offset'');
          conditions =
            (if \<not> includeDeleted then [\<lambda>r. isDeleted r = 0] else []) @
            (case providerFilter of Some p \<Rightarrow> [\<lambda>r. provider r = p] | None \<Rightarrow> []) @
            (case hostnameFilter of Some h \<Rightarrow> [\<lambda>r. hostname r = h] | None \<Rightarrow> []);
          found = take (nat limit) (drop (nat offset)
                    (rev (sort_key id' (dbSelect (\<lambda>r. list_all (\<lambda>c. c r) conditions) (db w)))))
      in (jsonResponse (ListReply (map toResolverDto found) limit offset (length found)) 200, w))"

definition getResolverHandler :: "nat \<Rightarrow> (string \<rightharpoonup> string) \<Rightarrow> world \<Rightarrow> http_response \<times> world" where
  "getResolverHandler i params w =
     (let includeDeleted = parseBoolean (params ''includeDeleted'')
      in case findResolverById i includeDeleted w of
           None \<Rightarrow> (jsonError ''Resolver not found'' 404 None, w)
         | Some r \<Rightarrow> (jsonResponse (RecordReply (toResolverDto r)) 200, w))"

definition logError :: "string \<Rightarrow> world \<Rightarrow> world" where
  "logError msg w = w\<lparr>console := console w @ [Error msg]\<rparr>"

definition createResolverHandler :: "body_text \<Rightarrow> Bindings \<Rightarrow> world \<Rightarrow> http_response \<times> world" where
  "createResolverHandler request env w =
     (case readJsonBody request of
        Inl err \<Rightarrow> (err, w)
      | Inr parsed \<Rightarrow>
          let v = validateResolverPayload parsed
                    \<lparr>requireProvider = True, requireHostname = True, requireAnyField = False\<rparr>
          in if length (errors_v v) \<noteq> 0
             then (jsonError ''Validation failed'' 422 (Some (errors_v v)), w)
             else
               (case dbInsert (now w) (provider_opt (fields_v v)) (hostname_opt (fields_v v))
                       (case alias_opt (fields_v v) of Some a \<Rightarrow> a | None \<Rightarrow> [])
                       (case ipv4_opt (fields_v v) of Some i \<Rightarrow> i | None \<Rightarrow> [])
                       (db w) of
                  Inl UniqueConstraintFailed \<Rightarrow>
                    (jsonError ''A resolver with the same provider and hostname already exists''
                       409 None, w)
                | Inl e \<Rightarrow>
                    (jsonError ''Failed to create resolver'' 500 None,
                     logError ''Failed to create resolver'' w)
                | Inr ([], d) \<Rightarrow>
                    (jsonError ''Failed to create resolver'' 500 None, w\<lparr>db := d\<rparr>)
                | Inr (created # _, d) \<Rightarrow>
                    if ipv4 created \<noteq> []
                    then (case syncDnsRecord env (hostname created) (ipv4 created) (w\<lparr>db := d\<rparr>) of
                            (Inl syncError, w1) \<Rightarrow>
                              (jsonError ''Resolver created but DNS sync failed'' 502 None,
                               logError ''Failed to sync DNS after create'' w1)
                          | (Inr u, w1) \<Rightarrow>
                              (jsonResponse (RecordReply (toResolverDto created)) 201, w1))
                    else (jsonResponse (RecordReply (toResolverDto created)) 201, w\<lparr>db := d\<rparr>)))"

text \<open>The assignment of an update statement: the submitted columns and \<^verbatim>\<open>mtime\<close>.\<close>

definition setValues :: "ResolverPayload \<Rightarrow> timestamp \<Rightarrow> ResolverRow \<Rightarrow> ResolverRow" where
  "setValues u t r =
     r\<lparr>provider := (case provider_opt u of Some x \<Rightarrow> x | None \<Rightarrow> provider r),
       hostname := (case hostname_opt u of Some x \<Rightarrow> x | None \<Rightarrow> hostname r),
       alias' := (case alias_opt u of Some x \<Rightarrow> x | None \<Rightarrow> alias' r),
       ipv4 := (case ipv4_opt u of Some x \<Rightarrow> x | None \<Rightarrow> ipv4 r),
       mtime := t\<rparr>"

definition updateResolverHandler ::
  "body_text \<Rightarrow> Bindings \<Rightarrow> nat \<Rightarrow> world \<Rightarrow> http_response \<times> world" where
  "updateResolverHandler request env i w =
     (case readJsonBody request of
        Inl err \<Rightarrow> (err, w)
      | Inr parsed \<Rightarrow>
          let v = validateResolverPayload parsed
                    \<lparr>requireProvider = False, requireHostname = False, requireAnyField = True\<rparr>;
              f = fields_v v
          in if length (errors_v v) \<noteq> 0
             then (jsonError ''Validation failed'' 422 (Some (errors_v v)), w)
             else
               let updateValues =
                     \<lparr>provider_opt = provider_opt f, hostname_opt = hostname_opt f,
                      alias_opt = alias_opt f, ipv4_opt = ipv4_opt f\<rparr>
               in if keyCount updateValues = 0
                  then (jsonError
                          ''At least one updatable field (provider, hostname, alias, ipv4) is required''
                          422 None, w)
                  else
                    (case findResolverById i False w of
                       None \<Rightarrow> (jsonError ''Resolver not found or already deleted'' 404 None, w)
                     | Some current \<Rightarrow>
                         (case dbUpdate (live i)
                                 (setValues updateValues (now w))
                                 (provider_opt updateValues \<noteq> None \<or>
                                  hostname_opt updateValues \<noteq> None)
                                 (db w) of
                            Inl UniqueConstraintFailed \<Rightarrow>
                              (jsonError ''Another resolver already uses this provider and hostname''
                                 409 None, w)
                          | Inl e \<Rightarrow>
                              (jsonError ''Failed to update resolver'' 500 None,
                               logError ''Failed to update resolver'' w)
                          | Inr ([], d) \<Rightarrow>
                              (jsonError ''Resolver not found or already deleted'' 404 None,
                               w\<lparr>db := d\<rparr>)
                          | Inr (updated # _, d) \<Rightarrow>
                              let ipv4Changed =
                                    (ipv4_opt f \<noteq> None \<and> ipv4_opt f \<noteq> Some (ipv4 current))
                              in if ipv4Changed \<and> ipv4 updated \<noteq> []
                                 then (case syncDnsRecord env (hostname updated) (ipv4 updated)
                                              (w\<lparr>db := d\<rparr>) of
                                         (Inl syncError, w1) \<Rightarrow>
                                           (jsonError ''Resolver updated but DNS sync failed'' 502 None,
                                            logError ''Failed to sync DNS after update'' w1)
                                       | (Inr u, w1) \<Rightarrow>
                                           (jsonResponse (RecordReply (toResolverDto updated)) 200, w1))
                                 else (jsonResponse (RecordReply (toResolverDto updated)) 200,
                                       w\<lparr>db := d\<rparr>))))"

text \<open>
  A statement that fails outside a \<^verbatim>\<open>try\<close> reaches the application's error handler,
  which answers 500.
\<close>

definition deleteResolverHandler :: "nat \<Rightarrow> world \<Rightarrow> http_response \<times> world" where
  "deleteResolverHandler i w =
     (case dbUpdate (live i)
             (\<lambda>r. r\<lparr>isDeleted := 1, mtime := now w\<rparr>) False (db w) of
        Inl e \<Rightarrow>
          (jsonError ''Internal Server Error'' 500 None, logError ''Request handling error'' w)
      | Inr ([], d) \<Rightarrow> (jsonError ''Resolver not found or already deleted'' 404 None, w\<lparr>db := d\<rparr>)
      | Inr (r # _, d) \<Rightarrow> (jsonResponse (RecordReply (toResolverDto r)) 200, w\<lparr>db := d\<rparr>))"

section \<open>The routes (createApp)\<close>

datatype route =
    GetRoot
  | GetHealth
  | GetResolvers "string \<rightharpoonup> string"
  | PostResolvers body_text
  | GetResolver string "string \<rightharpoonup> string"
  | PutResolver string body_text
  | PatchResolver string body_text
  | DeleteResolver string
  | Unmatched

definition withId :: "string \<Rightarrow> (nat \<Rightarrow> world \<Rightarrow> http_response \<times> world) \<Rightarrow> world
    \<Rightarrow> http_response \<times> world" where
  "withId param handler w =
     (case parseResolverIdParam (Some param) of
        None \<Rightarrow> (jsonError ''Resolver id must be a positive integer'' 400 None, w)
      | Some i \<Rightarrow> handler i w)"

fun createApp :: "Bindings \<Rightarrow> route \<Rightarrow> world \<Rightarrow> http_response \<times> world" where
  "createApp env GetRoot w = (jsonResponse ServiceReply 200, w)"
| "createApp env GetHealth w = (jsonResponse HealthReply 200, w)"
| "createApp env (GetResolvers params) w = listResolversHandler params w"
| "createApp env (PostResolvers request) w = createResolverHandler request env w"
| "createApp env (GetResolver param params) w =
     withId param (\<lambda>i. getResolverHandler i params) w"
| "createApp env (PutResolver param request) w =
     withId param (updateResolverHandler request env) w"
| "createApp env (PatchResolver param request) w =
     withId param (updateResolverHandler request env) w"
| "createApp env (DeleteResolver param) w = withId param deleteResolverHandler w"
| "createApp env Unmatched w = (jsonError ''Not found'' 404 None, w)"


section \<open>Notions of the specification\<close>

text \<open>
  A strict dotted quad, in the words of the specification: four parts separated by
  dots, each the decimal numeral, without a leading zero, of a number from 0 to 255.
\<close>

definition isOctet :: "string \<Rightarrow> bool" where
  "isOctet p \<longleftrightarrow>
     p \<noteq> [] \<and> list_all isDigit p \<and>
     (length p = 1 \<or> inClass CHR ''1'' CHR ''9'' (hd p)) \<and>
     digitsValue p \<le> 255"

fun splitOn :: "char \<Rightarrow> string \<Rightarrow> string list" where
  "splitOn sep [] = [[]]"
| "splitOn sep (c # cs) =
     (if c = sep then [] # splitOn sep cs
      else (case splitOn sep cs of [] \<Rightarrow> [[c]] | h # t \<Rightarrow> (c # h) # t))"

definition isDottedQuad :: "string \<Rightarrow> bool" where
  "isDottedQuad s =
     (case splitOn CHR ''.'' s of
        [a, b, c, d] \<Rightarrow> isOctet a \<and> isOctet b \<and> isOctet c \<and> isOctet d
      | _ \<Rightarrow> False)"

text \<open>The shapes of the strings that the octet pattern matches.\<close>

definition octetForm :: "string \<Rightarrow> bool" where
  "octetForm p \<longleftrightarrow>
     (\<exists>c. p = [CHR ''2'', CHR ''5'', c] \<and> inClass CHR ''0'' CHR ''5'' c) \<or>
     (\<exists>c d. p = [CHR ''2'', c, d] \<and> inClass CHR ''0'' CHR ''4'' c \<and> isDigit d) \<or>
     (\<exists>c d. p = [CHR ''1'', c, d] \<and> isDigit c \<and> isDigit d) \<or>
     (\<exists>c d. p = [c, d] \<and> inClass CHR ''1'' CHR ''9'' c \<and> isDigit d) \<or>
     (\<exists>d. p = [d] \<and> isDigit d)"

fun isString :: "json \<Rightarrow> bool" where
  "isString (JStr s) = True"
| "isString _ = False"

text \<open>The messages of the validator.\<close>

definition IPV4_INVALID :: string where
  "IPV4_INVALID = ''ipv4 must be a valid IPv4 address''"

definition NO_FIELD :: string where
  "NO_FIELD = ''At least one updatable field (provider, hostname, alias, ipv4) is required''"

text \<open>The options of the two callers of the validator.\<close>

definition createMode :: options where
  "createMode = \<lparr>requireProvider = True, requireHostname = True, requireAnyField = False\<rparr>"

definition updateMode :: options where
  "updateMode = \<lparr>requireProvider = False, requireHostname = False, requireAnyField = True\<rparr>"


text \<open>
  What the validator does, field by field: the test that rejects an \<^verbatim>\<open>ipv4\<close> value,
  the fields that are accepted and the errors that are reported.  The lemmas
  \<open>validate_fields\<close> and \<open>validate_errors\<close> show that the validator computes them.
\<close>

definition ipv4Bad :: "json \<Rightarrow> bool" where
  "ipv4Bad x \<longleftrightarrow> trimmedString x \<noteq> [] \<and> \<not> IPV4_REGEX_test (trimmedString x)"

definition acceptedFields :: "(string \<rightharpoonup> json) \<Rightarrow> ResolverPayload" where
  "acceptedFields body =
     \<lparr>provider_opt =
        (case body ''provider'' of
           None \<Rightarrow> None
         | Some x \<Rightarrow> if trimmedString x = [] then None else Some (trimmedString x)),
      hostname_opt =
        (case body ''hostname'' of
           None \<Rightarrow> None
         | Some x \<Rightarrow> if trimmedString x = [] then None else Some (trimmedString x)),
      alias_opt = map_option trimmedString (body ''alias''),
      ipv4_opt =
        (case body ''ipv4'' of
           None \<Rightarrow> None
         | Some x \<Rightarrow> if ipv4Bad x then None else Some (trimmedString x))\<rparr>"

definition reportedErrors :: "(string \<rightharpoonup> json) \<Rightarrow> options \<Rightarrow> string list" where
  "reportedErrors body opts =
     (case body ''provider'' of
        None \<Rightarrow> if requireProvider opts then [''provider is required''] else []
      | Some x \<Rightarrow> if trimmedString x = [] then [''provider cannot be empty''] else []) @
     (case body ''hostname'' of
        None \<Rightarrow> if requireHostname opts then [''hostname is required''] else []
      | Some x \<Rightarrow> if trimmedString x = [] then [''hostname cannot be empty''] else []) @
     (case body ''ipv4'' of
        None \<Rightarrow> []
      | Some x \<Rightarrow> if ipv4Bad x then [IPV4_INVALID] else []) @
     (if requireAnyField opts \<and> keyCount (acceptedFields body) = 0 then [NO_FIELD] else [])"

text \<open>The row that a create request inserts.\<close>

definition newRow :: "world \<Rightarrow> string \<Rightarrow> string \<Rightarrow> ResolverPayload \<Rightarrow> ResolverRow" where
  "newRow w p h f =
     \<lparr>id' = nextId (db w), provider = p, hostname = h,
      alias' = (case alias_opt f of Some a \<Rightarrow> a | None \<Rightarrow> []),
      ipv4 = (case ipv4_opt f of Some i \<Rightarrow> i | None \<Rightarrow> []),
      isDeleted = 0, mtime = now w, ctime = now w\<rparr>"

text \<open>Example data for the witnesses.\<close>

definition env0 :: Bindings where
  "env0 = \<lparr>CLOUDFLARE_API_TOKEN = Some ''token'', CLOUDFLARE_ZONE_ID = Some ''zone''\<rparr>"

definition row1 :: ResolverRow where
  "row1 = \<lparr>id' = 1, provider = ''cf'', hostname = ''a.example.com'', alias' = [],
           ipv4 = ''1.2.3.4'', isDeleted = 0, mtime = ''t0'', ctime = ''t0''\<rparr>"

definition world0 :: "ResolverRow list \<Rightarrow> fault option list \<Rightarrow> world" where
  "world0 rs fs =
     \<lparr>db = \<lparr>rows = rs, sequence = length rs, uniqueIndex = LiveRows\<rparr>,
      cf = \<lparr>records = [], calls = [], faults = fs\<rparr>,
      console = [], now = ''t1''\<rparr>"

definition body1 :: body_text where
  "body1 = Parses (JObj [(''provider'', JStr ''cf''), (''hostname'', JStr ''a.example.com''),
                         (''ipv4'', JStr ''1.2.3.4'')])"

definition patch1 :: body_text where
  "patch1 = Parses (JObj [(''ipv4'', JStr ''1.2.3.5'')])"

text \<open>
  What happens to the world: a request is served, or the world outside moves (the clock
  advances, other clients change the provider's records).
\<close>

datatype event = Request Bindings route | Outside timestamp cloudflare

fun happen :: "event \<Rightarrow> world \<Rightarrow> world" where
  "happen (Request env rq) w = snd (createApp env rq w)"
| "happen (Outside t c) w = w\<lparr>now := t, cf := c\<rparr>"

definition after :: "event list \<Rightarrow> world \<Rightarrow> world" where
  "after es w = fold happen es w"

text \<open>
  A record is gone from the live table: some row has the id, and every row with the id
  is marked deleted.
\<close>

definition gone :: "nat \<Rightarrow> database \<Rightarrow> bool" where
  "gone i d \<longleftrightarrow>
     list_ex (\<lambda>r. id' r = i) (rows d) \<and>
     list_all (\<lambda>r. id' r = i \<longrightarrow> isDeleted r = 1) (rows d)"

fun itemsOf :: "reply \<Rightarrow> ResolverDto list" where
  "itemsOf (ListReply xs l k n) = xs"
| "itemsOf _ = []"

text \<open>
  The writes that the provider has received: the requests of its log that are not
  lookups.
\<close>

fun isWrite :: "request \<Rightarrow> bool" where
  "isWrite (ListRecords z t n) = False"
| "isWrite (CreateRecord z b) = True"
| "isWrite (UpdateRecord z i b) = True"

definition writes :: "world \<Rightarrow> request list" where
  "writes w = filter isWrite (map snd (calls (cf w)))"

text \<open>The provider serves its next \<open>n\<close> requests without a fault.\<close>

definition served :: "nat \<Rightarrow> world \<Rightarrow> bool" where
  "served n w \<longleftrightarrow> list_all (\<lambda>f. f = None) (take n (faults (cf w)))"

text \<open>The record that a faithful lookup of a host name returns, if any.\<close>

definition lookup :: "string \<Rightarrow> world \<Rightarrow> CloudflareDnsRecord option" where
  "lookup host w =
     (case filter (\<lambda>r. dns_type r = ''A'' \<and> dns_name r = host) (records (cf w)) of
        [] \<Rightarrow> None
      | x # _ \<Rightarrow> Some x)"

section \<open>The pattern of IPv4 addresses\<close>

lemma set_oneChar: "set (oneChar P s) = {t. \<exists>c. s = c # t \<and> P c}"
  by (cases s) auto

lemma octet_remainders:
  "t \<in> set (matchPrefix OCTET s) \<longleftrightarrow> (\<exists>p. s = p @ t \<and> octetForm p)"
  unfolding OCTET_def octetForm_def
  by (auto simp add: set_oneChar)

lemma foldl_digits_lower:
  "a * 10 ^ length p \<le> foldl (\<lambda>a c. 10 * a + digitValue c) a p"
proof (induction p arbitrary: a)
  case Nil
  then show ?case by simp
next
  case (Cons c p)
  have "a * 10 ^ length (c # p) \<le> (10 * a + digitValue c) * 10 ^ length p"
    by (simp add: algebra_simps)
  also have "\<dots> \<le> foldl (\<lambda>a c. 10 * a + digitValue c) (10 * a + digitValue c) p"
    by (rule Cons.IH)
  finally show ?case by simp
qed

lemma char_eq_iff_of_char: "(c = d) \<longleftrightarrow> (of_char c :: nat) = of_char d"
  by simp

lemma four_digits_exceed:
  assumes "inClass CHR ''1'' CHR ''9'' c" and "3 \<le> length cs"
  shows "255 < digitsValue (c # cs)"
proof -
  have lead: "1 \<le> digitValue c"
    using assms(1) unfolding inClass_def digitValue_def by (simp; arith)
  have "(1000::nat) \<le> 10 ^ length cs"
    using assms(2) power_increasing[of 3 "length cs" "10::nat"] by simp
  also have "\<dots> \<le> digitValue c * 10 ^ length cs"
    using lead by simp
  also have "\<dots> \<le> digitsValue (c # cs)"
    using foldl_digits_lower[of "digitValue c" cs] by (simp add: digitsValue_def)
  finally show ?thesis by simp
qed

lemma list_shapes:
  "p = [] \<or> (\<exists>a. p = [a]) \<or> (\<exists>a b. p = [a, b]) \<or> (\<exists>a b c. p = [a, b, c]) \<or>
   (\<exists>a b c d r. p = a # b # c # d # r)"
  by (metis list.exhaust)

lemmas octet_unfold =
  isOctet_def octetForm_def digitsValue_def digitValue_def inClass_def isDigit_def

lemma octet1: "isOctet [a] \<longleftrightarrow> octetForm [a]"
  by (auto simp add: octet_unfold)

lemma octet2: "isOctet [a, b] \<longleftrightarrow> octetForm [a, b]"
  by (auto simp add: octet_unfold)

lemma octetForm3:
  "octetForm [a, b, c] \<longleftrightarrow>
     a = CHR ''2'' \<and> b = CHR ''5'' \<and> inClass CHR ''0'' CHR ''5'' c \<or>
     a = CHR ''2'' \<and> inClass CHR ''0'' CHR ''4'' b \<and> isDigit c \<or>
     a = CHR ''1'' \<and> isDigit b \<and> isDigit c"
  by (auto simp add: octetForm_def)

lemma octet3: "isOctet [a, b, c] \<longleftrightarrow> octetForm [a, b, c]"
  unfolding octetForm3 isOctet_def digitsValue_def digitValue_def inClass_def isDigit_def
  apply (simp del: of_char_eq_iff add: char_eq_iff_of_char)
  apply arith
  done

lemma octet4: "\<not> isOctet (a # b # c # d # r)"
  using four_digits_exceed[of a "b # c # d # r"] by (auto simp add: isOctet_def)

lemma octetForm4: "\<not> octetForm (a # b # c # d # r)"
  by (simp add: octetForm_def)

lemma isOctet_iff_form: "isOctet p \<longleftrightarrow> octetForm p"
  using list_shapes[of p] octet1 octet2 octet3 octet4 octetForm4
  by (elim disjE exE) (simp_all add: isOctet_def octetForm_def)

lemma dot_octet_remainders:
  "t \<in> set (matchPrefix (Cat (Lit CHR ''.'') OCTET) s) \<longleftrightarrow>
     (\<exists>p. s = CHR ''.'' # p @ t \<and> isOctet p)"
  by (auto simp add: set_oneChar octet_remainders isOctet_iff_form)

lemma in_Cat:
  "t \<in> set (matchPrefix (Cat r1 r2) s) \<longleftrightarrow>
     (\<exists>u. u \<in> set (matchPrefix r1 s) \<and> t \<in> set (matchPrefix r2 u))"
  by auto

lemma ipv4_regex_iff:
  "IPV4_REGEX_test s \<longleftrightarrow>
     (\<exists>a b c d. s = a @ CHR ''.'' # b @ CHR ''.'' # c @ CHR ''.'' # d \<and>
        isOctet a \<and> isOctet b \<and> isOctet c \<and> isOctet d)"
proof -
  let ?D = "Cat (Lit CHR ''.'') OCTET"
  have "IPV4_REGEX_test s \<longleftrightarrow>
      [] \<in> set (matchPrefix (Cat OCTET (Cat ?D (Cat ?D (Cat ?D Eps)))) s)"
    by (simp add: IPV4_REGEX_test_def testAnchored_def IPV4_REGEX_def numeral_3_eq_3
          del: matchPrefix.simps)
  also have "\<dots> \<longleftrightarrow>
    (\<exists>t1 t2 t3. t1 \<in> set (matchPrefix OCTET s) \<and> t2 \<in> set (matchPrefix ?D t1) \<and>
       t3 \<in> set (matchPrefix ?D t2) \<and> [] \<in> set (matchPrefix ?D t3))"
    by (simp only: in_Cat[of _ OCTET] in_Cat[of _ ?D] matchPrefix.simps(7)) auto
  also have "\<dots> \<longleftrightarrow>
    (\<exists>a b c d. s = a @ CHR ''.'' # b @ CHR ''.'' # c @ CHR ''.'' # d \<and>
        isOctet a \<and> isOctet b \<and> isOctet c \<and> isOctet d)"
    unfolding dot_octet_remainders octet_remainders isOctet_iff_form[symmetric]
    by (simp; blast)
  finally show ?thesis .
qed

lemma isOctet_no_dot: "isOctet a \<Longrightarrow> CHR ''.'' \<notin> set a"
  by (auto simp add: isOctet_def list_all_iff isDigit_def inClass_def)

lemma splitOn_nonempty: "splitOn sep s \<noteq> []"
  by (induction s) (auto split: list.splits)

lemma splitOn_plain: "sep \<notin> set a \<Longrightarrow> splitOn sep a = [a]"
  by (induction a) auto

lemma splitOn_append: "sep \<notin> set a \<Longrightarrow> splitOn sep (a @ sep # r) = a # splitOn sep r"
  by (induction a) auto

lemma splitOn_four:
  assumes "splitOn sep s = [a, b, c, d]"
  shows "s = a @ sep # b @ sep # c @ sep # d"
proof -
  have join: "concat (map (\<lambda>x. sep # x) (splitOn sep t)) = sep # t" for t
  proof (induction t)
    case Nil
    then show ?case by simp
  next
    case (Cons x t)
    then show ?case
      using splitOn_nonempty[of sep t] by (cases "splitOn sep t") auto
  qed
  show ?thesis
    using join[of s] assms by simp
qed

lemma isDottedQuad_iff:
  "isDottedQuad s \<longleftrightarrow>
     (\<exists>a b c d. s = a @ CHR ''.'' # b @ CHR ''.'' # c @ CHR ''.'' # d \<and>
        isOctet a \<and> isOctet b \<and> isOctet c \<and> isOctet d)"
proof
  assume "isDottedQuad s"
  then obtain a b c d where sp: "splitOn CHR ''.'' s = [a, b, c, d]"
    and oct: "isOctet a" "isOctet b" "isOctet c" "isOctet d"
    by (auto simp add: isDottedQuad_def split: list.splits)
  from splitOn_four[OF sp] oct
  show "\<exists>a b c d. s = a @ CHR ''.'' # b @ CHR ''.'' # c @ CHR ''.'' # d \<and>
        isOctet a \<and> isOctet b \<and> isOctet c \<and> isOctet d"
    by blast
next
  assume "\<exists>a b c d. s = a @ CHR ''.'' # b @ CHR ''.'' # c @ CHR ''.'' # d \<and>
        isOctet a \<and> isOctet b \<and> isOctet c \<and> isOctet d"
  then obtain a b c d where s: "s = a @ CHR ''.'' # b @ CHR ''.'' # c @ CHR ''.'' # d"
    and oct: "isOctet a" "isOctet b" "isOctet c" "isOctet d"
    by blast
  have "splitOn CHR ''.'' s = [a, b, c, d]"
    unfolding s using oct
    by (simp add: splitOn_append splitOn_plain isOctet_no_dot)
  then show "isDottedQuad s"
    using oct by (simp add: isDottedQuad_def)
qed

lemma IPV4_REGEX_test_iff: "IPV4_REGEX_test s \<longleftrightarrow> isDottedQuad s"
  by (simp only: ipv4_regex_iff isDottedQuad_iff)

section \<open>The validator, field by field\<close>

lemma checkProvider_eq:
  "checkProvider body opts v =
     \<lparr>fields_v = (fields_v v)\<lparr>provider_opt :=
         (case body ''provider'' of
            None \<Rightarrow> provider_opt (fields_v v)
          | Some x \<Rightarrow> if trimmedString x = [] then provider_opt (fields_v v)
                      else Some (trimmedString x))\<rparr>,
      errors_v = errors_v v @
         (case body ''provider'' of
            None \<Rightarrow> if requireProvider opts then [''provider is required''] else []
          | Some x \<Rightarrow> if trimmedString x = [] then [''provider cannot be empty''] else [])\<rparr>"
  by (simp add: checkProvider_def push_def Let_def split: option.splits)

lemma checkHostname_eq:
  "checkHostname body opts v =
     \<lparr>fields_v = (fields_v v)\<lparr>hostname_opt :=
         (case body ''hostname'' of
            None \<Rightarrow> hostname_opt (fields_v v)
          | Some x \<Rightarrow> if trimmedString x = [] then hostname_opt (fields_v v)
                      else Some (trimmedString x))\<rparr>,
      errors_v = errors_v v @
         (case body ''hostname'' of
            None \<Rightarrow> if requireHostname opts then [''hostname is required''] else []
          | Some x \<Rightarrow> if trimmedString x = [] then [''hostname cannot be empty''] else [])\<rparr>"
  by (simp add: checkHostname_def push_def Let_def split: option.splits)

lemma checkAlias_eq:
  "checkAlias body v =
     \<lparr>fields_v = (fields_v v)\<lparr>alias_opt :=
         (case body ''alias'' of
            None \<Rightarrow> alias_opt (fields_v v)
          | Some x \<Rightarrow> Some (trimmedString x))\<rparr>,
      errors_v = errors_v v\<rparr>"
  by (simp add: checkAlias_def split: option.splits)

lemma checkIpv4_eq:
  "checkIpv4 body v =
     \<lparr>fields_v = (fields_v v)\<lparr>ipv4_opt :=
         (case body ''ipv4'' of
            None \<Rightarrow> ipv4_opt (fields_v v)
          | Some x \<Rightarrow> if ipv4Bad x then ipv4_opt (fields_v v) else Some (trimmedString x))\<rparr>,
      errors_v = errors_v v @
         (case body ''ipv4'' of
            None \<Rightarrow> []
          | Some x \<Rightarrow> if ipv4Bad x then [IPV4_INVALID] else [])\<rparr>"
  by (simp add: checkIpv4_def push_def Let_def IPV4_INVALID_def ipv4Bad_def split: option.splits)

lemma checkAnyField_eq:
  "checkAnyField opts v =
     \<lparr>fields_v = fields_v v,
      errors_v = errors_v v @
         (if requireAnyField opts \<and> keyCount (fields_v v) = 0 then [NO_FIELD] else [])\<rparr>"
  by (simp add: checkAnyField_def push_def NO_FIELD_def)

lemma validate_fields: "fields_v (validateResolverPayload body opts) = acceptedFields body"
  unfolding validateResolverPayload_def checkAnyField_eq checkIpv4_eq checkAlias_eq
    checkHostname_eq checkProvider_eq
  by (simp add: noFields_def acceptedFields_def split: option.splits)

lemma validate_errors: "errors_v (validateResolverPayload body opts) = reportedErrors body opts"
  unfolding reportedErrors_def validate_fields[symmetric, of body opts]
  unfolding validateResolverPayload_def checkAnyField_eq checkIpv4_eq checkAlias_eq
    checkHostname_eq checkProvider_eq
  by simp

lemma ipv4_error_iff:
  "IPV4_INVALID \<in> set (errors_v (validateResolverPayload body opts)) \<longleftrightarrow>
     (case body ''ipv4'' of None \<Rightarrow> False | Some x \<Rightarrow> ipv4Bad x)"
  by (simp add: validate_errors reportedErrors_def IPV4_INVALID_def NO_FIELD_def
        split: option.splits)

lemma no_field_error_iff:
  "NO_FIELD \<in> set (errors_v (validateResolverPayload body opts)) \<longleftrightarrow>
     requireAnyField opts \<and> keyCount (acceptedFields body) = 0"
  by (simp add: validate_errors reportedErrors_def IPV4_INVALID_def NO_FIELD_def
        split: option.splits)

lemma provider_error_iff:
  "''provider cannot be empty'' \<in> set (errors_v (validateResolverPayload body opts)) \<longleftrightarrow>
     (case body ''provider'' of None \<Rightarrow> False | Some x \<Rightarrow> trimmedString x = [])"
  by (simp add: validate_errors reportedErrors_def IPV4_INVALID_def NO_FIELD_def
        split: option.splits)

lemma hostname_error_iff:
  "''hostname cannot be empty'' \<in> set (errors_v (validateResolverPayload body opts)) \<longleftrightarrow>
     (case body ''hostname'' of None \<Rightarrow> False | Some x \<Rightarrow> trimmedString x = [])"
  by (simp add: validate_errors reportedErrors_def IPV4_INVALID_def NO_FIELD_def
        split: option.splits)

lemma keyCount_zero:
  "keyCount f = 0 \<longleftrightarrow>
     provider_opt f = None \<and> hostname_opt f = None \<and> alias_opt f = None \<and> ipv4_opt f = None"
  by (simp add: keyCount_def)

section \<open>Claims about validation\<close>

lemmas regex_eval =
  IPV4_REGEX_test_def testAnchored_def IPV4_REGEX_def OCTET_def inClass_def isDigit_def
  eval_nat_numeral

lemma ipv4_examples_rejected:
  "\<not> IPV4_REGEX_test ''256.1.1.1''" "\<not> IPV4_REGEX_test ''1.2.3''"
  "\<not> IPV4_REGEX_test ''1.2.3.4.5''" "\<not> IPV4_REGEX_test ''abc''"
  by (simp_all add: regex_eval)

lemma ipv4_examples_accepted:
  "IPV4_REGEX_test ''0.0.0.0''" "IPV4_REGEX_test ''255.255.255.255''"
  "IPV4_REGEX_test ''192.168.1.1''"
  by (simp_all add: regex_eval)

lemma ipv4_examples_trim:
  "trim ''256.1.1.1'' = ''256.1.1.1''" "trim ''1.2.3'' = ''1.2.3''"
  "trim ''1.2.3.4.5'' = ''1.2.3.4.5''" "trim ''abc'' = ''abc''"
  "trim ''0.0.0.0'' = ''0.0.0.0''" "trim ''255.255.255.255'' = ''255.255.255.255''"
  "trim ''192.168.1.1'' = ''192.168.1.1''" "trim [] = []"
  by (simp_all add: trim_def isWhiteSpace_def)

text \<open>
  Claim C6.  A string submitted as \<^verbatim>\<open>ipv4\<close> is trimmed; the validator reports
  \<^verbatim>\<open>ipv4 must be a valid IPv4 address\<close> exactly when the trimmed string is neither empty
  nor a strict dotted quad, and otherwise accepts the trimmed string as the field.  The
  four malformed examples are rejected; the three addresses and the empty string are
  accepted.
\<close>

theorem ipv4_validation:
  "((IPV4_INVALID \<in> set (errors_v (validateResolverPayload (body(''ipv4'' \<mapsto> JStr s)) opts))) \<longleftrightarrow>
      (trim s \<noteq> [] \<and> \<not> isDottedQuad (trim s))) \<and>
   ipv4_opt (fields_v (validateResolverPayload (body(''ipv4'' \<mapsto> JStr s)) opts)) =
      (if trim s = [] \<or> isDottedQuad (trim s) then Some (trim s) else None) \<and>
   (\<forall>x \<in> set [''256.1.1.1'', ''1.2.3'', ''1.2.3.4.5'', ''abc''].
      IPV4_INVALID \<in> set (errors_v (validateResolverPayload (body(''ipv4'' \<mapsto> JStr x)) opts)) \<and>
      ipv4_opt (fields_v (validateResolverPayload (body(''ipv4'' \<mapsto> JStr x)) opts)) = None) \<and>
   (\<forall>x \<in> set [''0.0.0.0'', ''255.255.255.255'', ''192.168.1.1'', []].
      IPV4_INVALID \<notin> set (errors_v (validateResolverPayload (body(''ipv4'' \<mapsto> JStr x)) opts)) \<and>
      ipv4_opt (fields_v (validateResolverPayload (body(''ipv4'' \<mapsto> JStr x)) opts)) = Some x)"
proof -
  have general:
    "(IPV4_INVALID \<in> set (errors_v (validateResolverPayload (body(''ipv4'' \<mapsto> JStr x)) opts))) =
      (trim x \<noteq> [] \<and> \<not> isDottedQuad (trim x))"
    "ipv4_opt (fields_v (validateResolverPayload (body(''ipv4'' \<mapsto> JStr x)) opts)) =
      (if trim x = [] \<or> isDottedQuad (trim x) then Some (trim x) else None)" for x
    by (simp_all add: ipv4_error_iff validate_fields acceptedFields_def ipv4Bad_def
          IPV4_REGEX_test_iff)
  have bad: "trim x \<noteq> [] \<and> \<not> isDottedQuad (trim x)"
    if "x \<in> set [''256.1.1.1'', ''1.2.3'', ''1.2.3.4.5'', ''abc'']" for x
    using that ipv4_examples_rejected
    by (auto simp add: ipv4_examples_trim IPV4_REGEX_test_iff[symmetric])
  have good: "(trim x = [] \<or> isDottedQuad (trim x)) \<and> trim x = x"
    if "x \<in> set [''0.0.0.0'', ''255.255.255.255'', ''192.168.1.1'', []]" for x
    using that ipv4_examples_accepted
    by (auto simp add: ipv4_examples_trim IPV4_REGEX_test_iff[symmetric])
  show ?thesis
    using general bad good by (simp only: ball_simps) metis
qed

theorem ipv4_validation_witness:
  "IPV4_INVALID \<in> set (errors_v (validateResolverPayload [''ipv4'' \<mapsto> JStr ''256.1.1.1''] updateMode)) \<and>
   ipv4_opt (fields_v (validateResolverPayload [''ipv4'' \<mapsto> JStr ''192.168.1.1''] updateMode)) =
     Some ''192.168.1.1''"
  using ipv4_validation[of Map.empty "[]" updateMode] by simp

text \<open>
  Claim C8, as stated, fails: a body whose only recognized field is an empty
  \<^verbatim>\<open>provider\<close> has a recognized field present, and the validator still reports that at
  least one updatable field is required (next to \<^verbatim>\<open>provider cannot be empty\<close>).
\<close>

theorem any_field_counterexample:
  "[''provider'' \<mapsto> JStr []] ''provider'' \<noteq> None \<and>
   NO_FIELD \<in> set (errors_v (validateResolverPayload [''provider'' \<mapsto> JStr []] updateMode))"
  by (simp add: no_field_error_iff updateMode_def keyCount_zero acceptedFields_def trim_def)

text \<open>
  Claim C8, amended.  When \<^verbatim>\<open>requireAnyField\<close> is set, the error is reported exactly
  when the validator has accepted none of the recognized fields: \<^verbatim>\<open>provider\<close> and
  \<^verbatim>\<open>hostname\<close> are each absent or empty after trimming, \<^verbatim>\<open>alias\<close> is absent, and
  \<^verbatim>\<open>ipv4\<close> is absent or invalid.  In particular it is reported when no recognized field
  is present.
\<close>

theorem any_field_required:
  "requireAnyField opts \<Longrightarrow>
     ((NO_FIELD \<in> set (errors_v (validateResolverPayload body opts))) \<longleftrightarrow>
        keyCount (fields_v (validateResolverPayload body opts)) = 0) \<and>
     (keyCount (fields_v (validateResolverPayload body opts)) = 0 \<longleftrightarrow>
        (case body ''provider'' of None \<Rightarrow> True | Some x \<Rightarrow> trimmedString x = []) \<and>
        (case body ''hostname'' of None \<Rightarrow> True | Some x \<Rightarrow> trimmedString x = []) \<and>
        body ''alias'' = None \<and>
        (case body ''ipv4'' of
           None \<Rightarrow> True
         | Some x \<Rightarrow> trimmedString x \<noteq> [] \<and> \<not> IPV4_REGEX_test (trimmedString x))) \<and>
     (body ''provider'' = None \<and> body ''hostname'' = None \<and> body ''alias'' = None \<and>
      body ''ipv4'' = None \<longrightarrow>
        NO_FIELD \<in> set (errors_v (validateResolverPayload body opts)))"
  by (simp add: no_field_error_iff validate_fields keyCount_zero acceptedFields_def ipv4Bad_def
        split: option.splits)

theorem any_field_required_witness:
  "NO_FIELD \<in> set (errors_v (validateResolverPayload Map.empty updateMode)) \<and>
   NO_FIELD \<notin> set (errors_v (validateResolverPayload [''alias'' \<mapsto> JStr ''x''] updateMode))"
proof -
  have m: "requireAnyField updateMode" by (simp add: updateMode_def)
  show ?thesis
    using any_field_required[OF m, of Map.empty]
      any_field_required[OF m, of "[''alias'' \<mapsto> JStr ''x'']"]
    by (simp add: keyCount_zero validate_fields acceptedFields_def)
qed

section \<open>The handlers, step by step\<close>

lemma fetch_frame:
  "db (snd (fetch token rq w)) = db w \<and> now (snd (fetch token rq w)) = now w \<and>
   console (snd (fetch token rq w)) = console w"
  by (simp add: fetch_def Let_def split: prod.splits list.splits option.splits fault.splits)

lemma fetchDnsRecord_frame:
  "db (snd (fetchDnsRecord z token h w)) = db w \<and> now (snd (fetchDnsRecord z token h w)) = now w \<and>
   console (snd (fetchDnsRecord z token h w)) = console w"
  using fetch_frame[of token "ListRecords z ''A'' h" w]
  by (auto simp add: fetchDnsRecord_def split: prod.splits sum.splits payload.splits option.splits
      cf_result.splits)

lemma syncDnsRecord_frame:
  "db (snd (syncDnsRecord env h ip w)) = db w \<and> now (snd (syncDnsRecord env h ip w)) = now w"
proof -
  have a: "db w2 = db w \<and> now w2 = now w"
    if "fetchDnsRecord z t h w = (x, w1)" "fetch t rq w1 = (y, w2)" for z t x w1 rq y w2
    using fetchDnsRecord_frame[of z t h w] fetch_frame[of t rq w1] that by simp
  have b: "db w1 = db w \<and> now w1 = now w"
    if "fetchDnsRecord z t h w = (x, w1)" for z t x w1
    using fetchDnsRecord_frame[of z t h w] that by simp
  show ?thesis
    unfolding syncDnsRecord_def Let_def
    by (auto split: prod.splits sum.splits option.splits dest: a b)
qed


lemma create_valid:
  assumes "errors_v (validateResolverPayload parsed createMode) = []"
  shows "\<exists>p h. provider_opt (acceptedFields parsed) = Some p \<and>
               hostname_opt (acceptedFields parsed) = Some h"
proof -
  have "reportedErrors parsed createMode = []"
    using assms by (simp add: validate_errors)
  then obtain x y where "parsed ''provider'' = Some x" "trimmedString x \<noteq> []"
    "parsed ''hostname'' = Some y" "trimmedString y \<noteq> []"
    by (auto simp add: reportedErrors_def createMode_def split: option.splits if_splits)
  then show ?thesis
    by (simp add: acceptedFields_def)
qed

lemma update_valid:
  assumes "errors_v (validateResolverPayload parsed updateMode) = []"
  shows "keyCount (acceptedFields parsed) \<noteq> 0"
  using assms
  by (simp add: validate_errors reportedErrors_def updateMode_def split: if_splits)

lemma create_outcome:
  assumes "readJsonBody request = Inr parsed"
    and "errors_v (validateResolverPayload parsed createMode) = []"
    and "provider_opt (acceptedFields parsed) = Some p"
    and "hostname_opt (acceptedFields parsed) = Some h"
  shows "createResolverHandler request env w =
     (let r = newRow w p h (acceptedFields parsed);
          w' = w\<lparr>db := (db w)\<lparr>rows := rows (db w) @ [r], sequence := id' r\<rparr>\<rparr>
      in if collides (db w) r
         then (jsonError ''A resolver with the same provider and hostname already exists'' 409 None, w)
         else if ipv4 r \<noteq> []
         then (case syncDnsRecord env (hostname r) (ipv4 r) w' of
                 (Inl e, w1) \<Rightarrow>
                   (jsonError ''Resolver created but DNS sync failed'' 502 None,
                    logError ''Failed to sync DNS after create'' w1)
               | (Inr u, w1) \<Rightarrow> (jsonResponse (RecordReply (toResolverDto r)) 201, w1))
         else (jsonResponse (RecordReply (toResolverDto r)) 201, w'))"
  using assms
  by (simp add: createResolverHandler_def createMode_def[symmetric] validate_fields dbInsert_def
        newRow_def Let_def)


lemma payload_eta:
  "\<lparr>provider_opt = provider_opt f, hostname_opt = hostname_opt f,
    alias_opt = alias_opt f, ipv4_opt = ipv4_opt (f::ResolverPayload)\<rparr> = f"
  by simp

lemma find_live:
  "findResolverById i False w =
     (case filter (live i) (rows (db w)) of [] \<Rightarrow> None | r # _ \<Rightarrow> Some r)"
  by (simp add: findResolverById_def dbSelect_def split: list.splits)

lemma find_any:
  "findResolverById i True w =
     (case filter (\<lambda>r. id' r = i) (rows (db w)) of [] \<Rightarrow> None | r # _ \<Rightarrow> Some r)"
  by (simp add: findResolverById_def dbSelect_def split: list.splits)

lemma update_outcome:
  assumes "readJsonBody request = Inr parsed"
    and "errors_v (validateResolverPayload parsed updateMode) = []"
    and "findResolverById i False w = Some current"
  shows "updateResolverHandler request env i w =
     (let f = acceptedFields parsed;
          d = (db w)\<lparr>rows := map (\<lambda>r. if live i r then setValues f (now w) r else r) (rows (db w))\<rparr>;
          updated = setValues f (now w) current
      in if (provider_opt f \<noteq> None \<or> hostname_opt f \<noteq> None) \<and>
            list_ex (\<lambda>r. live i r \<and> collides (db w) (setValues f (now w) r)) (rows (db w))
         then (jsonError ''Another resolver already uses this provider and hostname'' 409 None, w)
         else if ipv4_opt f \<noteq> None \<and> ipv4_opt f \<noteq> Some (ipv4 current) \<and> ipv4 updated \<noteq> []
         then (case syncDnsRecord env (hostname updated) (ipv4 updated) (w\<lparr>db := d\<rparr>) of
                 (Inl e, w1) \<Rightarrow>
                   (jsonError ''Resolver updated but DNS sync failed'' 502 None,
                    logError ''Failed to sync DNS after update'' w1)
               | (Inr u, w1) \<Rightarrow> (jsonResponse (RecordReply (toResolverDto updated)) 200, w1))
         else (jsonResponse (RecordReply (toResolverDto updated)) 200, w\<lparr>db := d\<rparr>))"
proof -
  obtain rest where flt: "filter (live i) (rows (db w)) = current # rest"
    using assms(3) by (auto simp add: find_live split: list.splits)
  have k: "keyCount (acceptedFields parsed) \<noteq> 0"
    using assms(2) by (rule update_valid)
  show ?thesis
    using assms(1,2) k flt
    unfolding updateResolverHandler_def updateMode_def[symmetric]
    by (simp add: validate_fields payload_eta assms(3) dbUpdate_def Let_def)
qed


lemma map_if_none: "filter P xs = [] \<Longrightarrow> map (\<lambda>r. if P r then g r else r) xs = xs"
  by (induction xs) (auto split: if_splits)

lemma filter_map_if:
  assumes "\<And>r. P (g r) = P r"
  shows "filter P (map (\<lambda>r. if P r then g r else r) xs) = map g (filter P xs)"
  by (induction xs) (auto simp add: assms)

lemma filter_map_if_other:
  assumes "\<And>r. Q (g r) = Q r"
  shows "filter Q (map (\<lambda>r. if P r then g r else r) xs) =
         map (\<lambda>r. if P r then g r else r) (filter Q xs)"
  by (induction xs) (auto simp add: assms)

lemma world_db_same: "w\<lparr>db := (db w)\<lparr>rows := rows (db w)\<rparr>\<rparr> = w"
  by simp

lemma delete_outcome:
  "deleteResolverHandler i w =
     (case filter (live i) (rows (db w)) of
        [] \<Rightarrow> (jsonError ''Resolver not found or already deleted'' 404 None, w)
      | r # _ \<Rightarrow>
          (jsonResponse (RecordReply (toResolverDto (r\<lparr>isDeleted := 1, mtime := now w\<rparr>))) 200,
           w\<lparr>db := (db w)\<lparr>rows := map (\<lambda>r. if live i r then r\<lparr>isDeleted := 1, mtime := now w\<rparr> else r)
                                      (rows (db w))\<rparr>\<rparr>))"
  by (simp add: deleteResolverHandler_def dbUpdate_def map_if_none split: list.splits)

lemma fold_max_ge: "(s::nat) \<le> fold max xs s"
  by (induction xs arbitrary: s) (auto intro: order_trans[OF max.cobounded2])

lemma fold_max_mem: "(x::nat) \<in> set xs \<Longrightarrow> x \<le> fold max xs s"
proof (induction xs arbitrary: s)
  case Nil
  then show ?case by simp
next
  case (Cons a xs)
  show ?case
  proof (cases "x = a")
    case True
    have "a \<le> max a s" by simp
    also have "\<dots> \<le> fold max xs (max a s)" by (rule fold_max_ge)
    finally show ?thesis using True by simp
  next
    case False
    then show ?thesis using Cons by simp
  qed
qed

lemma nextId_fresh: "r \<in> set (rows d) \<Longrightarrow> id' r < nextId d"
  using fold_max_mem[of "id' r" "map id' (rows d)" "sequence d"]
  by (simp add: nextId_def less_Suc_eq_le)

lemma fetch_calls:
  "calls (cf (snd (fetch token rq w))) = calls (cf w) @ [(token, rq)]"
  by (simp add: fetch_def Let_def split: prod.splits list.splits option.splits fault.splits)

section \<open>Claims about the handlers\<close>

lemma live_after_update:
  "filter (live i) (map (\<lambda>r. if live i r then setValues f t r else r) xs) =
     map (setValues f t) (filter (live i) xs)"
  by (rule filter_map_if) (simp add: live_def setValues_def)

text \<open>
  Claim C2.  When a create request has inserted its row, or an update request has
  rewritten its row, and the reconciliation that follows fails, the handler answers 502
  with the message that the resolver was created (updated) but the DNS sync failed, and
  the database is the one that the statement left: the inserted row is there, and the
  updated row is the one found under its id.
\<close>

theorem sync_failure_keeps_mutation:
  "(readJsonBody request = Inr parsed \<and>
    f = fields_v (validateResolverPayload parsed createMode) \<and>
    errors_v (validateResolverPayload parsed createMode) = [] \<and>
    dbInsert (now w) (provider_opt f) (hostname_opt f)
      (case alias_opt f of Some a \<Rightarrow> a | None \<Rightarrow> [])
      (case ipv4_opt f of Some x \<Rightarrow> x | None \<Rightarrow> []) (db w) = Inr ([created], d) \<and>
    fst (syncDnsRecord env (hostname created) (ipv4 created) (w\<lparr>db := d\<rparr>)) = Inl e
    \<longrightarrow>
      fst (createResolverHandler request env w) =
        jsonError ''Resolver created but DNS sync failed'' 502 None \<and>
      db (snd (createResolverHandler request env w)) = d \<and>
      rows d = rows (db w) @ [created]) \<and>
   (readJsonBody request' = Inr parsed' \<and>
    g = fields_v (validateResolverPayload parsed' updateMode) \<and>
    errors_v (validateResolverPayload parsed' updateMode) = [] \<and>
    findResolverById i False v = Some current \<and>
    dbUpdate (live i) (setValues g (now v))
      (provider_opt g \<noteq> None \<or> hostname_opt g \<noteq> None) (db v) = Inr (updated # rest, d') \<and>
    ipv4_opt g \<noteq> None \<and> ipv4_opt g \<noteq> Some (ipv4 current) \<and>
    fst (syncDnsRecord env (hostname updated) (ipv4 updated) (v\<lparr>db := d'\<rparr>)) = Inl e'
    \<longrightarrow>
      fst (updateResolverHandler request' env i v) =
        jsonError ''Resolver updated but DNS sync failed'' 502 None \<and>
      db (snd (updateResolverHandler request' env i v)) = d' \<and>
      findResolverById i False (snd (updateResolverHandler request' env i v)) = Some updated \<and>
      updated = setValues g (now v) current)"
proof (intro conjI impI)
  assume h: "readJsonBody request = Inr parsed \<and>
    f = fields_v (validateResolverPayload parsed createMode) \<and>
    errors_v (validateResolverPayload parsed createMode) = [] \<and>
    dbInsert (now w) (provider_opt f) (hostname_opt f)
      (case alias_opt f of Some a \<Rightarrow> a | None \<Rightarrow> [])
      (case ipv4_opt f of Some x \<Rightarrow> x | None \<Rightarrow> []) (db w) = Inr ([created], d) \<and>
    fst (syncDnsRecord env (hostname created) (ipv4 created) (w\<lparr>db := d\<rparr>)) = Inl e"
  then have f: "f = acceptedFields parsed" by (simp add: validate_fields)
  obtain p q where pq: "provider_opt (acceptedFields parsed) = Some p"
      "hostname_opt (acceptedFields parsed) = Some q"
    using create_valid h by blast
  have ins: "\<not> collides (db w) (newRow w p q (acceptedFields parsed))"
      "created = newRow w p q (acceptedFields parsed)"
      "d = (db w)\<lparr>rows := rows (db w) @ [created], sequence := id' created\<rparr>"
    using h pq unfolding f
    by (auto simp add: dbInsert_def newRow_def Let_def split: if_splits)
  have ip: "ipv4 created \<noteq> []"
    using h by (auto simp add: syncDnsRecord_def)
  obtain w1 where s: "syncDnsRecord env (hostname created) (ipv4 created) (w\<lparr>db := d\<rparr>) = (Inl e, w1)"
    using h by (metis prod.collapse)
  have dbw1: "db w1 = d"
    using syncDnsRecord_frame[of env "hostname created" "ipv4 created" "w\<lparr>db := d\<rparr>"] s by simp
  have out: "createResolverHandler request env w =
      (jsonError ''Resolver created but DNS sync failed'' 502 None,
       logError ''Failed to sync DNS after create'' w1)"
    using create_outcome[of request parsed p q env w] h pq ins ip s
    by (simp add: Let_def)
  show "fst (createResolverHandler request env w) =
        jsonError ''Resolver created but DNS sync failed'' 502 None"
    by (simp add: out)
  show "db (snd (createResolverHandler request env w)) = d"
    by (simp add: out logError_def dbw1)
  show "rows d = rows (db w) @ [created]"
    by (simp add: ins(3))
next
  assume h: "readJsonBody request' = Inr parsed' \<and>
    g = fields_v (validateResolverPayload parsed' updateMode) \<and>
    errors_v (validateResolverPayload parsed' updateMode) = [] \<and>
    findResolverById i False v = Some current \<and>
    dbUpdate (live i) (setValues g (now v))
      (provider_opt g \<noteq> None \<or> hostname_opt g \<noteq> None) (db v) = Inr (updated # rest, d') \<and>
    ipv4_opt g \<noteq> None \<and> ipv4_opt g \<noteq> Some (ipv4 current) \<and>
    fst (syncDnsRecord env (hostname updated) (ipv4 updated) (v\<lparr>db := d'\<rparr>)) = Inl e'"
  then have g: "g = acceptedFields parsed'" by (simp add: validate_fields)
  from h have h1: "readJsonBody request' = Inr parsed'"
    and h2: "errors_v (validateResolverPayload parsed' updateMode) = []"
    and h3: "findResolverById i False v = Some current"
    and h4: "dbUpdate (live i) (setValues g (now v))
      (provider_opt g \<noteq> None \<or> hostname_opt g \<noteq> None) (db v) = Inr (updated # rest, d')"
    and h5: "ipv4_opt g \<noteq> None" "ipv4_opt g \<noteq> Some (ipv4 current)"
    and h6: "fst (syncDnsRecord env (hostname updated) (ipv4 updated) (v\<lparr>db := d'\<rparr>)) = Inl e'"
    by blast+
  obtain more where flt: "filter (live i) (rows (db v)) = current # more"
    using h3 by (auto simp add: find_live split: list.splits)
  have c1: "((provider_opt g \<noteq> None \<or> hostname_opt g \<noteq> None) \<and>
         list_ex (\<lambda>r. live i r \<and> collides (db v) (setValues g (now v) r)) (rows (db v))) = False"
    using h4 by (auto simp add: dbUpdate_def split: if_splits)
  have upd: "updated = setValues g (now v) current"
      "d' = (db v)\<lparr>rows := map (\<lambda>r. if live i r then setValues g (now v) r else r) (rows (db v))\<rparr>"
    using h4 flt by (auto simp add: dbUpdate_def split: if_splits)
  have ip: "ipv4 updated \<noteq> []"
    using h6 by (auto simp add: syncDnsRecord_def)
  obtain w1 where s: "syncDnsRecord env (hostname updated) (ipv4 updated) (v\<lparr>db := d'\<rparr>) = (Inl e', w1)"
    using h6 by (metis prod.collapse)
  have dbw1: "db w1 = d'"
    using syncDnsRecord_frame[of env "hostname updated" "ipv4 updated" "v\<lparr>db := d'\<rparr>"] s by simp
  have out: "updateResolverHandler request' env i v =
      (jsonError ''Resolver updated but DNS sync failed'' 502 None,
       logError ''Failed to sync DNS after update'' w1)"
    unfolding update_outcome[OF h1 h2 h3] g[symmetric] Let_def c1 upd[symmetric]
    using h5 ip by (simp add: s)
  show "fst (updateResolverHandler request' env i v) =
        jsonError ''Resolver updated but DNS sync failed'' 502 None"
    by (simp add: out)
  show "db (snd (updateResolverHandler request' env i v)) = d'"
    by (simp add: out logError_def dbw1)
  show "findResolverById i False (snd (updateResolverHandler request' env i v)) = Some updated"
    by (simp add: out logError_def dbw1 find_live upd(2) live_after_update flt upd(1))
  show "updated = setValues g (now v) current"
    by (rule upd(1))
qed


lemmas validate_eval =
  readJsonBody_def falsy_def jsonError_def jsonResponse_def validate_fields validate_errors
  acceptedFields_def reportedErrors_def ipv4Bad_def keyCount_def createMode_def updateMode_def
  trim_def isWhiteSpace_def regex_eval

lemmas store_eval =
  dbInsert_def dbUpdate_def dbSelect_def nextId_def collides_def indexed_def live_def
  setValues_def findResolverById_def newRow_def toResolverDto_def

lemmas sync_eval =
  syncDnsRecord_def fetchDnsRecord_def fetch_def orEmpty_def isCloudflareResponse_def
  successIsFalse_def extractCloudflareError_def withDetail_def accepted_def refused_def
  written_def freshId_def logError_def Let_def

theorem sync_failure_keeps_mutation_witness:
  "fst (createResolverHandler body1 env0 (world0 [] [Some Unreachable])) =
     jsonError ''Resolver created but DNS sync failed'' 502 None \<and>
   rows (db (snd (createResolverHandler body1 env0 (world0 [] [Some Unreachable])))) =
     [row1\<lparr>mtime := ''t1'', ctime := ''t1''\<rparr>] \<and>
   fst (updateResolverHandler patch1 env0 1 (world0 [row1] [None, Some (HttpFailure [])])) =
     jsonError ''Resolver updated but DNS sync failed'' 502 None \<and>
   findResolverById 1 False
     (snd (updateResolverHandler patch1 env0 1 (world0 [row1] [None, Some (HttpFailure [])]))) =
     Some (row1\<lparr>ipv4 := ''1.2.3.5'', mtime := ''t1''\<rparr>)"
proof -
  let ?p = "map_of [(''provider'', JStr ''cf''), (''hostname'', JStr ''a.example.com''),
                    (''ipv4'', JStr ''1.2.3.4'')]"
  let ?w = "world0 [] [Some Unreachable]"
  let ?c = "row1\<lparr>mtime := ''t1'', ctime := ''t1''\<rparr>"
  let ?d = "\<lparr>rows = [?c], sequence = 1, uniqueIndex = LiveRows\<rparr>"
  let ?q = "map_of [(''ipv4'', JStr ''1.2.3.5'')]"
  let ?v = "world0 [row1] [None, Some (HttpFailure [])]"
  let ?u = "row1\<lparr>ipv4 := ''1.2.3.5'', mtime := ''t1''\<rparr>"
  let ?d' = "\<lparr>rows = [?u], sequence = 1, uniqueIndex = LiveRows\<rparr>"
  have a1: "readJsonBody body1 = Inr ?p"
    by (simp add: body1_def validate_eval)
  have a2: "errors_v (validateResolverPayload ?p createMode) = []"
    by (simp add: validate_eval)
  have a3: "dbInsert (now ?w) (provider_opt (fields_v (validateResolverPayload ?p createMode)))
      (hostname_opt (fields_v (validateResolverPayload ?p createMode)))
      (case alias_opt (fields_v (validateResolverPayload ?p createMode)) of Some a \<Rightarrow> a | None \<Rightarrow> [])
      (case ipv4_opt (fields_v (validateResolverPayload ?p createMode)) of Some x \<Rightarrow> x | None \<Rightarrow> [])
      (db ?w) = Inr ([?c], ?d)"
    by (simp add: validate_eval store_eval Let_def world0_def row1_def)
  have a4: "fst (syncDnsRecord env0 (hostname ?c) (ipv4 ?c) (?w\<lparr>db := ?d\<rparr>)) = Inl NetworkError"
    by (simp add: sync_eval world0_def row1_def env0_def)
  have b1: "readJsonBody patch1 = Inr ?q"
    by (simp add: patch1_def validate_eval)
  have b2: "errors_v (validateResolverPayload ?q updateMode) = []"
    by (simp add: validate_eval)
  have b3: "findResolverById 1 False ?v = Some row1"
    by (simp add: store_eval Let_def world0_def row1_def)
  have b4: "dbUpdate (live 1) (setValues (fields_v (validateResolverPayload ?q updateMode)) (now ?v))
      (provider_opt (fields_v (validateResolverPayload ?q updateMode)) \<noteq> None \<or>
       hostname_opt (fields_v (validateResolverPayload ?q updateMode)) \<noteq> None) (db ?v) =
      Inr ([?u], ?d')"
    by (simp add: validate_eval store_eval Let_def world0_def row1_def)
  have b5: "ipv4_opt (fields_v (validateResolverPayload ?q updateMode)) \<noteq> None"
    "ipv4_opt (fields_v (validateResolverPayload ?q updateMode)) \<noteq> Some (ipv4 row1)"
    by (simp_all add: validate_eval row1_def)
  have b6: "fst (syncDnsRecord env0 (hostname ?u) (ipv4 ?u) (?v\<lparr>db := ?d'\<rparr>)) =
      Inl (ErrorMsg ''Failed to create DNS record for a.example.com'')"
    by (simp add: sync_eval world0_def row1_def env0_def)
  note T = sync_failure_keeps_mutation[where request = body1 and parsed = ?p and w = ?w
      and f = "fields_v (validateResolverPayload ?p createMode)" and created = ?c and d = ?d
      and env = env0 and e = NetworkError and request' = patch1 and parsed' = ?q and i = 1
      and v = ?v
      and g = "fields_v (validateResolverPayload ?q updateMode)" and current = row1
      and updated = ?u and rest = "[]" and d' = ?d'
      and e' = "ErrorMsg ''Failed to create DNS record for a.example.com''"]
  have C: "fst (createResolverHandler body1 env0 ?w) =
        jsonError ''Resolver created but DNS sync failed'' 502 None \<and>
      db (snd (createResolverHandler body1 env0 ?w)) = ?d \<and> rows ?d = rows (db ?w) @ [?c]"
    by (rule T[THEN conjunct1, THEN mp]) (intro conjI refl a1 a2 a3 a4)
  have U: "fst (updateResolverHandler patch1 env0 1 ?v) =
        jsonError ''Resolver updated but DNS sync failed'' 502 None \<and>
      db (snd (updateResolverHandler patch1 env0 1 ?v)) = ?d' \<and>
      findResolverById 1 False (snd (updateResolverHandler patch1 env0 1 ?v)) = Some ?u \<and>
      ?u = setValues (fields_v (validateResolverPayload ?q updateMode)) (now ?v) row1"
    by (rule T[THEN conjunct2, THEN mp]) (intro conjI refl a1 a2 a3 a4 b1 b2 b3 b4 b5 b6)
  show ?thesis
    using C U by simp
qed

lemma fetch_console: "console (snd (fetch token rq w)) = console w"
  using fetch_frame[of token rq w] by simp

lemma fetchDnsRecord_calls:
  "calls (cf (snd (fetchDnsRecord z token h w))) = calls (cf w) @ [(token, ListRecords z ''A'' h)]"
  using fetch_calls[of token "ListRecords z ''A'' h" w]
  by (auto simp add: fetchDnsRecord_def split: prod.splits sum.splits payload.splits option.splits
      cf_result.splits)

lemma fetchDnsRecord_console: "console (snd (fetchDnsRecord z token h w)) = console w"
  using fetchDnsRecord_frame[of z token h w] by simp

lemma syncDnsRecord_trace:
  "length (calls (cf w)) \<le> length (calls (cf (snd (syncDnsRecord env h ip w)))) \<and>
   length (console w) \<le> length (console (snd (syncDnsRecord env h ip w))) \<and>
   (ip \<noteq> [] \<longrightarrow>
      length (calls (cf w)) + length (console w) <
      length (calls (cf (snd (syncDnsRecord env h ip w)))) +
      length (console (snd (syncDnsRecord env h ip w))))"
proof -
  have one: "length (calls (cf w1)) = Suc (length (calls (cf w))) \<and> console w1 = console w"
    if "fetchDnsRecord z t h w = (x, w1)" for z t x w1
    using fetchDnsRecord_calls[of z t h w] fetchDnsRecord_console[of z t h w] that by simp
  have two: "length (calls (cf w2)) = Suc (length (calls (cf w1))) \<and> console w2 = console w1"
    if "fetch t rq w1 = (y, w2)" for t rq y w1 w2
    using fetch_calls[of t rq w1] fetch_console[of t rq w1] that by simp
  show ?thesis
    unfolding syncDnsRecord_def Let_def
    by (auto split: prod.splits sum.splits option.splits dest!: one two)
qed

lemma update_store_step:
  assumes "findResolverById i False w = Some current"
    and "dbUpdate (live i) (setValues g (now w))
           (provider_opt g \<noteq> None \<or> hostname_opt g \<noteq> None) (db w) = Inr (updated # rest, d)"
  shows "((provider_opt g \<noteq> None \<or> hostname_opt g \<noteq> None) \<and>
          list_ex (\<lambda>r. live i r \<and> collides (db w) (setValues g (now w) r)) (rows (db w))) = False"
    and "updated = setValues g (now w) current"
    and "d = (db w)\<lparr>rows := map (\<lambda>r. if live i r then setValues g (now w) r else r) (rows (db w))\<rparr>"
proof -
  obtain more where flt: "filter (live i) (rows (db w)) = current # more"
    using assms(1) by (auto simp add: find_live split: list.splits)
  show "((provider_opt g \<noteq> None \<or> hostname_opt g \<noteq> None) \<and>
          list_ex (\<lambda>r. live i r \<and> collides (db w) (setValues g (now w) r)) (rows (db w))) = False"
    using assms(2) by (auto simp add: dbUpdate_def split: if_splits)
  show "updated = setValues g (now w) current"
    using assms(2) flt by (auto simp add: dbUpdate_def split: if_splits)
  show "d = (db w)\<lparr>rows := map (\<lambda>r. if live i r then setValues g (now w) r else r) (rows (db w))\<rparr>"
    using assms(2) flt by (auto simp add: dbUpdate_def split: if_splits)
qed

text \<open>
  Claim C3.  Let an update request pass validation, find its row and rewrite it.  The
  handler then calls the reconciler, with the updated host name and the new address,
  exactly when \<^verbatim>\<open>ipv4\<close> is among the accepted fields, differs from the address the row
  had, and is not empty; its answer and the world it leaves are those of that call.
  Otherwise it answers with the updated row and only the database has changed.  The
  call is visible: the provider's request log or the console has grown exactly in the
  first case.
\<close>

theorem update_reconciles_iff:
  "readJsonBody request = Inr parsed \<and>
   g = fields_v (validateResolverPayload parsed updateMode) \<and>
   errors_v (validateResolverPayload parsed updateMode) = [] \<and>
   findResolverById i False w = Some current \<and>
   dbUpdate (live i) (setValues g (now w))
     (provider_opt g \<noteq> None \<or> hostname_opt g \<noteq> None) (db w) = Inr (updated # rest, d)
   \<longrightarrow>
     ((\<exists>x. ipv4_opt g = Some x \<and> x \<noteq> ipv4 current \<and> x \<noteq> []) \<longrightarrow>
        (\<exists>x. ipv4_opt g = Some x \<and>
           updateResolverHandler request env i w =
             (case syncDnsRecord env (hostname updated) x (w\<lparr>db := d\<rparr>) of
                (Inl e, w1) \<Rightarrow>
                  (jsonError ''Resolver updated but DNS sync failed'' 502 None,
                   logError ''Failed to sync DNS after update'' w1)
              | (Inr u, w1) \<Rightarrow> (jsonResponse (RecordReply (toResolverDto updated)) 200, w1)))) \<and>
     (\<not> (\<exists>x. ipv4_opt g = Some x \<and> x \<noteq> ipv4 current \<and> x \<noteq> []) \<longrightarrow>
        updateResolverHandler request env i w =
          (jsonResponse (RecordReply (toResolverDto updated)) 200, w\<lparr>db := d\<rparr>)) \<and>
     ((calls (cf (snd (updateResolverHandler request env i w))) \<noteq> calls (cf w) \<or>
       console (snd (updateResolverHandler request env i w)) \<noteq> console w) \<longleftrightarrow>
      (\<exists>x. ipv4_opt g = Some x \<and> x \<noteq> ipv4 current \<and> x \<noteq> []))"
proof
  assume h: "readJsonBody request = Inr parsed \<and>
   g = fields_v (validateResolverPayload parsed updateMode) \<and>
   errors_v (validateResolverPayload parsed updateMode) = [] \<and>
   findResolverById i False w = Some current \<and>
   dbUpdate (live i) (setValues g (now w))
     (provider_opt g \<noteq> None \<or> hostname_opt g \<noteq> None) (db w) = Inr (updated # rest, d)"
  then have g: "g = acceptedFields parsed" by (simp add: validate_fields)
  from h have h1: "readJsonBody request = Inr parsed"
    and h2: "errors_v (validateResolverPayload parsed updateMode) = []"
    and h3: "findResolverById i False w = Some current"
    and h4: "dbUpdate (live i) (setValues g (now w))
      (provider_opt g \<noteq> None \<or> hostname_opt g \<noteq> None) (db w) = Inr (updated # rest, d)"
    by blast+
  note st = update_store_step[OF h3 h4]
  let ?go = "\<exists>x. ipv4_opt g = Some x \<and> x \<noteq> ipv4 current \<and> x \<noteq> []"
  have new: "ipv4 updated = (case ipv4_opt g of Some x \<Rightarrow> x | None \<Rightarrow> ipv4 current)"
    by (simp add: st(2) setValues_def)
  have cond: "(ipv4_opt g \<noteq> None \<and> ipv4_opt g \<noteq> Some (ipv4 current) \<and> ipv4 updated \<noteq> []) = ?go"
    unfolding new by (cases "ipv4_opt g") auto
  have out: "updateResolverHandler request env i w =
     (if ?go
      then (case syncDnsRecord env (hostname updated) (ipv4 updated) (w\<lparr>db := d\<rparr>) of
              (Inl e, w1) \<Rightarrow>
                (jsonError ''Resolver updated but DNS sync failed'' 502 None,
                 logError ''Failed to sync DNS after update'' w1)
            | (Inr u, w1) \<Rightarrow> (jsonResponse (RecordReply (toResolverDto updated)) 200, w1))
      else (jsonResponse (RecordReply (toResolverDto updated)) 200, w\<lparr>db := d\<rparr>))"
    unfolding update_outcome[OF h1 h2 h3] g[symmetric] Let_def st(1) st(2)[symmetric]
      st(3)[symmetric] cond
    by simp
  have yes: "\<exists>x. ipv4_opt g = Some x \<and>
           updateResolverHandler request env i w =
             (case syncDnsRecord env (hostname updated) x (w\<lparr>db := d\<rparr>) of
                (Inl e, w1) \<Rightarrow>
                  (jsonError ''Resolver updated but DNS sync failed'' 502 None,
                   logError ''Failed to sync DNS after update'' w1)
              | (Inr u, w1) \<Rightarrow> (jsonResponse (RecordReply (toResolverDto updated)) 200, w1))"
    if go: ?go
  proof -
    from go obtain x where x: "ipv4_opt g = Some x" by blast
    then have eq: "ipv4 updated = x" by (simp add: new)
    have "updateResolverHandler request env i w =
       (case syncDnsRecord env (hostname updated) (ipv4 updated) (w\<lparr>db := d\<rparr>) of
          (Inl e, w1) \<Rightarrow>
            (jsonError ''Resolver updated but DNS sync failed'' 502 None,
             logError ''Failed to sync DNS after update'' w1)
        | (Inr u, w1) \<Rightarrow> (jsonResponse (RecordReply (toResolverDto updated)) 200, w1))"
      by (simp only: out go if_True)
    then show ?thesis using x eq by blast
  qed
  have no: "updateResolverHandler request env i w =
          (jsonResponse (RecordReply (toResolverDto updated)) 200, w\<lparr>db := d\<rparr>)"
    if "\<not> ?go"
    by (simp only: out that if_False)
  have seen: "(calls (cf (snd (updateResolverHandler request env i w))) \<noteq> calls (cf w) \<or>
       console (snd (updateResolverHandler request env i w)) \<noteq> console w) \<longleftrightarrow> ?go"
  proof (cases ?go)
    case False
    then show ?thesis using no by simp
  next
    case True
    then have ip: "ipv4 updated \<noteq> []" using cond by blast
    let ?s = "syncDnsRecord env (hostname updated) (ipv4 updated) (w\<lparr>db := d\<rparr>)"
    have grow: "length (calls (cf w)) \<le> length (calls (cf (snd ?s)))"
      "length (console w) \<le> length (console (snd ?s))"
      "length (calls (cf w)) + length (console w) <
         length (calls (cf (snd ?s))) + length (console (snd ?s))"
      using syncDnsRecord_trace[of "w\<lparr>db := d\<rparr>" env "hostname updated" "ipv4 updated"] ip
      by simp_all
    have after: "calls (cf (snd (updateResolverHandler request env i w))) = calls (cf (snd ?s))"
      "length (console (snd ?s)) \<le> length (console (snd (updateResolverHandler request env i w)))"
      by (simp_all only: out True if_True) (auto simp add: logError_def split: prod.splits sum.splits)
    have "length (calls (cf w)) + length (console w) <
        length (calls (cf (snd (updateResolverHandler request env i w)))) +
        length (console (snd (updateResolverHandler request env i w)))"
      using grow after by simp
    then have "calls (cf (snd (updateResolverHandler request env i w))) \<noteq> calls (cf w) \<or>
       console (snd (updateResolverHandler request env i w)) \<noteq> console w"
      by auto
    then show ?thesis using True by simp
  qed
  show "(?go \<longrightarrow>
        (\<exists>x. ipv4_opt g = Some x \<and>
           updateResolverHandler request env i w =
             (case syncDnsRecord env (hostname updated) x (w\<lparr>db := d\<rparr>) of
                (Inl e, w1) \<Rightarrow>
                  (jsonError ''Resolver updated but DNS sync failed'' 502 None,
                   logError ''Failed to sync DNS after update'' w1)
              | (Inr u, w1) \<Rightarrow> (jsonResponse (RecordReply (toResolverDto updated)) 200, w1)))) \<and>
     (\<not> ?go \<longrightarrow>
        updateResolverHandler request env i w =
          (jsonResponse (RecordReply (toResolverDto updated)) 200, w\<lparr>db := d\<rparr>)) \<and>
     ((calls (cf (snd (updateResolverHandler request env i w))) \<noteq> calls (cf w) \<or>
       console (snd (updateResolverHandler request env i w)) \<noteq> console w) \<longleftrightarrow> ?go)"
    using yes no seen by blast
qed


theorem update_reconciles_iff_witness:
  "fst (updateResolverHandler patch1 env0 1 (world0 [row1] [])) =
     jsonResponse (RecordReply (toResolverDto (row1\<lparr>ipv4 := ''1.2.3.5'', mtime := ''t1''\<rparr>))) 200 \<and>
   map snd (calls (cf (snd (updateResolverHandler patch1 env0 1 (world0 [row1] []))))) =
     [ListRecords ''zone'' ''A'' ''a.example.com'',
      CreateRecord ''zone''
        \<lparr>body_type = ''A'', body_name = ''a.example.com'', body_content = ''1.2.3.5'',
         body_ttl = 1, body_proxied = False\<rparr>]"
proof -
  let ?q = "map_of [(''ipv4'', JStr ''1.2.3.5'')]"
  let ?v = "world0 [row1] []"
  let ?g = "fields_v (validateResolverPayload ?q updateMode)"
  let ?u = "row1\<lparr>ipv4 := ''1.2.3.5'', mtime := ''t1''\<rparr>"
  let ?d = "\<lparr>rows = [?u], sequence = 1, uniqueIndex = LiveRows\<rparr>"
  have b1: "readJsonBody patch1 = Inr ?q"
    by (simp add: patch1_def validate_eval)
  have b2: "errors_v (validateResolverPayload ?q updateMode) = []"
    by (simp add: validate_eval)
  have b3: "findResolverById 1 False ?v = Some row1"
    by (simp add: store_eval Let_def world0_def row1_def)
  have b4: "dbUpdate (live 1) (setValues ?g (now ?v))
      (provider_opt ?g \<noteq> None \<or> hostname_opt ?g \<noteq> None) (db ?v) = Inr ([?u], ?d)"
    by (simp add: validate_eval store_eval Let_def world0_def row1_def)
  have new: "ipv4_opt ?g = Some ''1.2.3.5''"
    by (simp add: validate_eval)
  have go: "\<exists>x. ipv4_opt ?g = Some x \<and> x \<noteq> ipv4 row1 \<and> x \<noteq> []"
    using new by (simp add: row1_def)
  note T = update_reconciles_iff[where request = patch1 and parsed = ?q and g = ?g and i = 1
      and w = ?v and current = row1 and updated = ?u and rest = "[]" and d = ?d and env = env0]
  have "\<exists>x. ipv4_opt ?g = Some x \<and>
      updateResolverHandler patch1 env0 1 ?v =
        (case syncDnsRecord env0 (hostname ?u) x (?v\<lparr>db := ?d\<rparr>) of
           (Inl e, w1) \<Rightarrow>
             (jsonError ''Resolver updated but DNS sync failed'' 502 None,
              logError ''Failed to sync DNS after update'' w1)
         | (Inr u, w1) \<Rightarrow> (jsonResponse (RecordReply (toResolverDto ?u)) 200, w1))"
    by (rule T[THEN mp, THEN conjunct1, THEN mp]) (intro conjI refl b1 b2 b3 b4 go)+
  then have out: "updateResolverHandler patch1 env0 1 ?v =
        (case syncDnsRecord env0 (hostname ?u) ''1.2.3.5'' (?v\<lparr>db := ?d\<rparr>) of
           (Inl e, w1) \<Rightarrow>
             (jsonError ''Resolver updated but DNS sync failed'' 502 None,
              logError ''Failed to sync DNS after update'' w1)
         | (Inr u, w1) \<Rightarrow> (jsonResponse (RecordReply (toResolverDto ?u)) 200, w1))"
    unfolding new by simp
  show ?thesis
    unfolding out by (simp add: sync_eval world0_def row1_def env0_def)
qed

section \<open>Non-string values\<close>

lemma trimmedString_non_string: "\<not> isString x \<Longrightarrow> trimmedString x = []"
  by (cases x) simp_all

lemma validate_cong:
  assumes "acceptedFields b = acceptedFields b'" and "reportedErrors b opts = reportedErrors b' opts"
  shows "validateResolverPayload b opts = validateResolverPayload b' opts"
  by (rule validation.equality) (simp_all add: validate_fields validate_errors assms)

lemma readJsonBody_single: "readJsonBody (Parses (JObj [(k, x)])) = Inr [k \<mapsto> x]"
  by (simp add: readJsonBody_def falsy_def)

lemma setValues_only_ipv4:
  "provider_opt f = None \<Longrightarrow> hostname_opt f = None \<Longrightarrow> alias_opt f = None \<Longrightarrow>
   ipv4_opt f = Some x \<Longrightarrow> setValues f t r = r\<lparr>ipv4 := x, mtime := t\<rparr>"
  by (simp add: setValues_def)

text \<open>
  Claim C10.  A value that is not a string passes for the empty string in the optional
  fields: with such a value under \<^verbatim>\<open>ipv4\<close> (or \<^verbatim>\<open>alias\<close>) the validator answers what
  it answers for the empty string, accepts the field as empty and reports no address
  error; an update whose body is just that \<^verbatim>\<open>ipv4\<close> empties the stored address of the
  row.  Under \<^verbatim>\<open>provider\<close> or \<^verbatim>\<open>hostname\<close> such a value is rejected as empty.
\<close>

theorem non_string_coerced:
  "\<not> isString x \<longrightarrow>
     validateResolverPayload (b(''ipv4'' \<mapsto> x)) opts =
       validateResolverPayload (b(''ipv4'' \<mapsto> JStr [])) opts \<and>
     ipv4_opt (fields_v (validateResolverPayload (b(''ipv4'' \<mapsto> x)) opts)) = Some [] \<and>
     IPV4_INVALID \<notin> set (errors_v (validateResolverPayload (b(''ipv4'' \<mapsto> x)) opts)) \<and>
     validateResolverPayload (b(''alias'' \<mapsto> x)) opts =
       validateResolverPayload (b(''alias'' \<mapsto> JStr [])) opts \<and>
     alias_opt (fields_v (validateResolverPayload (b(''alias'' \<mapsto> x)) opts)) = Some [] \<and>
     ''provider cannot be empty'' \<in>
       set (errors_v (validateResolverPayload (b(''provider'' \<mapsto> x)) opts)) \<and>
     provider_opt (fields_v (validateResolverPayload (b(''provider'' \<mapsto> x)) opts)) = None \<and>
     ''hostname cannot be empty'' \<in>
       set (errors_v (validateResolverPayload (b(''hostname'' \<mapsto> x)) opts)) \<and>
     hostname_opt (fields_v (validateResolverPayload (b(''hostname'' \<mapsto> x)) opts)) = None \<and>
     (findResolverById i False w = Some current \<longrightarrow>
        fst (updateResolverHandler (Parses (JObj [(''ipv4'', x)])) env i w) =
          jsonResponse (RecordReply (toResolverDto (current\<lparr>ipv4 := [], mtime := now w\<rparr>))) 200 \<and>
        findResolverById i False
          (snd (updateResolverHandler (Parses (JObj [(''ipv4'', x)])) env i w)) =
          Some (current\<lparr>ipv4 := [], mtime := now w\<rparr>))"
proof
  assume ns: "\<not> isString x"
  have t: "trimmedString x = []"
    using ns by (rule trimmedString_non_string)
  have e: "trim [] = []"
    by (simp add: trim_def)
  have v1: "validateResolverPayload (b(''ipv4'' \<mapsto> x)) opts =
       validateResolverPayload (b(''ipv4'' \<mapsto> JStr [])) opts"
    by (rule validate_cong) (simp_all add: acceptedFields_def reportedErrors_def ipv4Bad_def t e)
  have v2: "validateResolverPayload (b(''alias'' \<mapsto> x)) opts =
       validateResolverPayload (b(''alias'' \<mapsto> JStr [])) opts"
    by (rule validate_cong) (simp_all add: acceptedFields_def reportedErrors_def ipv4Bad_def t e)
  have upd: "fst (updateResolverHandler (Parses (JObj [(''ipv4'', x)])) env i w) =
          jsonResponse (RecordReply (toResolverDto (current\<lparr>ipv4 := [], mtime := now w\<rparr>))) 200 \<and>
        findResolverById i False
          (snd (updateResolverHandler (Parses (JObj [(''ipv4'', x)])) env i w)) =
          Some (current\<lparr>ipv4 := [], mtime := now w\<rparr>)"
    if cur: "findResolverById i False w = Some current"
  proof -
    let ?p = "[''ipv4'' \<mapsto> x]"
    have f: "provider_opt (acceptedFields ?p) = None" "hostname_opt (acceptedFields ?p) = None"
      "alias_opt (acceptedFields ?p) = None" "ipv4_opt (acceptedFields ?p) = Some []"
      by (simp_all add: acceptedFields_def ipv4Bad_def t)
    have valid: "errors_v (validateResolverPayload ?p updateMode) = []"
      by (simp add: validate_errors reportedErrors_def updateMode_def ipv4Bad_def t keyCount_zero f)
    have sv: "setValues (acceptedFields ?p) (now w) r = r\<lparr>ipv4 := [], mtime := now w\<rparr>" for r
      by (rule setValues_only_ipv4) (rule f)+
    obtain more where flt: "filter (live i) (rows (db w)) = current # more"
      using cur by (auto simp add: find_live split: list.splits)
    have out: "updateResolverHandler (Parses (JObj [(''ipv4'', x)])) env i w =
        (jsonResponse (RecordReply (toResolverDto (current\<lparr>ipv4 := [], mtime := now w\<rparr>))) 200,
         w\<lparr>db := (db w)\<lparr>rows := map (\<lambda>r. if live i r then setValues (acceptedFields ?p) (now w) r else r)
                                    (rows (db w))\<rparr>\<rparr>)"
      unfolding update_outcome[OF readJsonBody_single valid cur] Let_def
      by (simp add: f sv)
    show ?thesis
      unfolding out by (simp add: find_live live_after_update flt sv)
  qed
  show "validateResolverPayload (b(''ipv4'' \<mapsto> x)) opts =
       validateResolverPayload (b(''ipv4'' \<mapsto> JStr [])) opts \<and>
     ipv4_opt (fields_v (validateResolverPayload (b(''ipv4'' \<mapsto> x)) opts)) = Some [] \<and>
     IPV4_INVALID \<notin> set (errors_v (validateResolverPayload (b(''ipv4'' \<mapsto> x)) opts)) \<and>
     validateResolverPayload (b(''alias'' \<mapsto> x)) opts =
       validateResolverPayload (b(''alias'' \<mapsto> JStr [])) opts \<and>
     alias_opt (fields_v (validateResolverPayload (b(''alias'' \<mapsto> x)) opts)) = Some [] \<and>
     ''provider cannot be empty'' \<in>
       set (errors_v (validateResolverPayload (b(''provider'' \<mapsto> x)) opts)) \<and>
     provider_opt (fields_v (validateResolverPayload (b(''provider'' \<mapsto> x)) opts)) = None \<and>
     ''hostname cannot be empty'' \<in>
       set (errors_v (validateResolverPayload (b(''hostname'' \<mapsto> x)) opts)) \<and>
     hostname_opt (fields_v (validateResolverPayload (b(''hostname'' \<mapsto> x)) opts)) = None \<and>
     (findResolverById i False w = Some current \<longrightarrow>
        fst (updateResolverHandler (Parses (JObj [(''ipv4'', x)])) env i w) =
          jsonResponse (RecordReply (toResolverDto (current\<lparr>ipv4 := [], mtime := now w\<rparr>))) 200 \<and>
        findResolverById i False
          (snd (updateResolverHandler (Parses (JObj [(''ipv4'', x)])) env i w)) =
          Some (current\<lparr>ipv4 := [], mtime := now w\<rparr>))"
    using v1 v2 upd
    by (simp add: ipv4_error_iff provider_error_iff hostname_error_iff validate_fields
          acceptedFields_def ipv4Bad_def t e)
qed

theorem non_string_coerced_witness:
  "ipv4_opt (fields_v (validateResolverPayload [''ipv4'' \<mapsto> JNum 7] updateMode)) = Some [] \<and>
   ''provider cannot be empty'' \<in>
     set (errors_v (validateResolverPayload [''provider'' \<mapsto> JNum 7] createMode)) \<and>
   findResolverById 1 False
     (snd (updateResolverHandler (Parses (JObj [(''ipv4'', JNum 7)])) env0 1 (world0 [row1] []))) =
     Some (row1\<lparr>ipv4 := [], mtime := ''t1''\<rparr>)"
proof -
  have ns: "\<not> isString (JNum 7)" by simp
  have cur: "findResolverById 1 False (world0 [row1] []) = Some row1"
    by (simp add: store_eval Let_def world0_def row1_def)
  have n: "now (world0 [row1] []) = ''t1''"
    by (simp add: world0_def)
  note T = non_string_coerced[THEN mp, OF ns, of Map.empty _ 1 "world0 [row1] []" row1 env0]
  have a: "ipv4_opt (fields_v (validateResolverPayload [''ipv4'' \<mapsto> JNum 7] updateMode)) = Some []"
    using T[of updateMode] by blast
  have b: "''provider cannot be empty'' \<in>
     set (errors_v (validateResolverPayload [''provider'' \<mapsto> JNum 7] createMode))"
    using T[of createMode] by blast
  have c: "findResolverById 1 False
     (snd (updateResolverHandler (Parses (JObj [(''ipv4'', JNum 7)])) env0 1 (world0 [row1] []))) =
     Some (row1\<lparr>ipv4 := [], mtime := now (world0 [row1] [])\<rparr>)"
    using T[of updateMode] cur by blast
  show ?thesis
    using a b c unfolding n by blast
qed

section \<open>What a handler does to the table\<close>

lemma syncDnsRecord_db: "db (snd (syncDnsRecord env h ip w)) = db w"
  using syncDnsRecord_frame[of env h ip w] by simp

lemma sync_case_db:
  "db (snd (case syncDnsRecord env h ip w of
              (Inl e, w1) \<Rightarrow> (a, logError m w1)
            | (Inr u, w1) \<Rightarrow> (b, w1))) = db w"
  using syncDnsRecord_db[of env h ip w]
  by (auto simp add: logError_def split: prod.splits sum.splits)

lemma update_db_cases:
  "db (snd (updateResolverHandler request env i w)) = db w \<or>
   (\<exists>parsed. readJsonBody request = Inr parsed \<and>
      db (snd (updateResolverHandler request env i w)) =
        (db w)\<lparr>rows := map (\<lambda>r. if live i r
                                 then setValues (fields_v (validateResolverPayload parsed updateMode))
                                        (now w) r
                                 else r) (rows (db w))\<rparr>)"
proof (cases "readJsonBody request")
  case (Inl err)
  then show ?thesis by (simp add: updateResolverHandler_def)
next
  case (Inr parsed)
  show ?thesis
  proof (cases "errors_v (validateResolverPayload parsed updateMode) = []")
    case False
    then show ?thesis
      using Inr by (simp add: updateResolverHandler_def updateMode_def[symmetric] Let_def)
  next
    case valid: True
    show ?thesis
    proof (cases "findResolverById i False w")
      case None
      then show ?thesis
        using Inr valid
        by (simp add: updateResolverHandler_def updateMode_def[symmetric] Let_def)
    next
      case (Some current)
      show ?thesis
        unfolding update_outcome[OF Inr valid Some] Let_def
        using Inr by (simp add: sync_case_db validate_fields)
    qed
  qed
qed

lemma create_db_cases:
  "db (snd (createResolverHandler request env w)) = db w \<or>
   (\<exists>r. id' r = nextId (db w) \<and>
      db (snd (createResolverHandler request env w)) =
        (db w)\<lparr>rows := rows (db w) @ [r], sequence := id' r\<rparr>)"
proof (cases "readJsonBody request")
  case (Inl err)
  then show ?thesis by (simp add: createResolverHandler_def)
next
  case (Inr parsed)
  show ?thesis
  proof (cases "errors_v (validateResolverPayload parsed createMode) = []")
    case False
    then show ?thesis
      using Inr by (simp add: createResolverHandler_def createMode_def[symmetric] Let_def)
  next
    case valid: True
    obtain p h where ph: "provider_opt (acceptedFields parsed) = Some p"
        "hostname_opt (acceptedFields parsed) = Some h"
      using create_valid[OF valid] by blast
    have "id' (newRow w p h (acceptedFields parsed)) = nextId (db w)"
      by (simp add: newRow_def)
    then show ?thesis
      unfolding create_outcome[OF Inr valid ph] Let_def
      by (auto simp add: sync_case_db)
  qed
qed

lemma delete_db:
  "db (snd (deleteResolverHandler i w)) =
     (db w)\<lparr>rows := map (\<lambda>r. if live i r then r\<lparr>isDeleted := 1, mtime := now w\<rparr> else r)
                        (rows (db w))\<rparr>"
  by (simp add: delete_outcome map_if_none split: list.splits)

lemma list_db: "snd (listResolversHandler params w) = w"
  by (simp add: listResolversHandler_def Let_def)

lemma get_db: "snd (getResolverHandler i params w) = w"
  by (simp add: getResolverHandler_def Let_def split: option.splits)

section \<open>Claims about what a mutation leaves alone\<close>

lemma list_all2_mapped:
  "(\<And>x. x \<in> set xs \<Longrightarrow> P x (F x)) \<Longrightarrow> list_all2 P xs (map F xs)"
  by (simp add: list_all2_map2 list_all2_same)

lemma list_all2_refl_on: "(\<And>x. P x x) \<Longrightarrow> list_all2 P xs xs"
  by (simp add: list_all2_same)

lemma withId_cases:
  "withId param handler w = (jsonError ''Resolver id must be a positive integer'' 400 None, w) \<or>
   (\<exists>i. withId param handler w = handler i w)"
  by (auto simp add: withId_def split: option.splits)

lemma withId_db:
  assumes "Q (db w)" and "\<And>i. Q (db (snd (handler i w)))"
  shows "Q (db (snd (withId param handler w)))"
  using assms by (simp add: withId_def split: option.splits)

lemma route_db_cases:
  "db (snd (createApp env rq w)) = db w \<or>
   (\<exists>r. id' r = nextId (db w) \<and>
      db (snd (createApp env rq w)) = (db w)\<lparr>rows := rows (db w) @ [r], sequence := id' r\<rparr>) \<or>
   (\<exists>i parsed. db (snd (createApp env rq w)) =
        (db w)\<lparr>rows := map (\<lambda>r. if live i r
                                 then setValues (fields_v (validateResolverPayload parsed updateMode))
                                        (now w) r
                                 else r) (rows (db w))\<rparr>) \<or>
   (\<exists>i. db (snd (createApp env rq w)) =
        (db w)\<lparr>rows := map (\<lambda>r. if live i r then r\<lparr>isDeleted := 1, mtime := now w\<rparr> else r)
                          (rows (db w))\<rparr>)"
proof -
  let ?Q = "\<lambda>d. d = db w \<or>
   (\<exists>r. id' r = nextId (db w) \<and> d = (db w)\<lparr>rows := rows (db w) @ [r], sequence := id' r\<rparr>) \<or>
   (\<exists>i parsed. d =
        (db w)\<lparr>rows := map (\<lambda>r. if live i r
                                 then setValues (fields_v (validateResolverPayload parsed updateMode))
                                        (now w) r
                                 else r) (rows (db w))\<rparr>) \<or>
   (\<exists>i. d =
        (db w)\<lparr>rows := map (\<lambda>r. if live i r then r\<lparr>isDeleted := 1, mtime := now w\<rparr> else r)
                          (rows (db w))\<rparr>)"
  have same: "?Q (db w)" by simp
  have upd: "?Q (db (snd (updateResolverHandler request env i w)))" for request i
    using update_db_cases[of request env i w] by blast
  have del: "?Q (db (snd (deleteResolverHandler i w)))" for i
    using delete_db[of i w] by blast
  have cre: "?Q (db (snd (createResolverHandler request env w)))" for request
    using create_db_cases[of request env w] by blast
  have "?Q (db (snd (createApp env rq w)))"
  proof (cases rq)
    case GetRoot
    then show ?thesis by simp
  next
    case GetHealth
    then show ?thesis by simp
  next
    case (GetResolvers params)
    then show ?thesis by (simp add: list_db)
  next
    case (PostResolvers request)
    show ?thesis unfolding PostResolvers createApp.simps by (rule cre)
  next
    case (GetResolver param params)
    show ?thesis unfolding GetResolver createApp.simps
      by (rule withId_db) (simp_all add: get_db)
  next
    case (PutResolver param request)
    show ?thesis unfolding PutResolver createApp.simps
      by (rule withId_db) (rule same upd)+
  next
    case (PatchResolver param request)
    show ?thesis unfolding PatchResolver createApp.simps
      by (rule withId_db) (rule same upd)+
  next
    case (DeleteResolver param)
    show ?thesis unfolding DeleteResolver createApp.simps
      by (rule withId_db) (rule same del)+
  next
    case Unmatched
    then show ?thesis by simp
  qed
  then show ?thesis .
qed

text \<open>
  Claim C9.  An update leaves, in every row, the id, the creation time and the deletion
  flag as they were, leaves every row other than the live row of the given id as it
  was, and leaves every column for which the validated payload has no value as it
  was.  A delete changes nothing but the deletion flag and the modification time of a
  row, and touches no row other than the live row of the given id.  Whatever request
  the application serves, the rows that were there keep their id and creation time.
\<close>

theorem mutations_keep_the_rest:
  "list_all2 (\<lambda>r r'. id' r' = id' r \<and> ctime r' = ctime r \<and> isDeleted r' = isDeleted r \<and>
                       (live i r \<or> r' = r))
     (rows (db w)) (rows (db (snd (updateResolverHandler request env i w)))) \<and>
   (readJsonBody request = Inr parsed \<and>
    g = fields_v (validateResolverPayload parsed updateMode) \<longrightarrow>
      list_all2 (\<lambda>r r'. (provider_opt g = None \<longrightarrow> provider r' = provider r) \<and>
                          (hostname_opt g = None \<longrightarrow> hostname r' = hostname r) \<and>
                          (alias_opt g = None \<longrightarrow> alias' r' = alias' r) \<and>
                          (ipv4_opt g = None \<longrightarrow> ipv4 r' = ipv4 r))
        (rows (db w)) (rows (db (snd (updateResolverHandler request env i w))))) \<and>
   list_all2 (\<lambda>r r'. r' = r\<lparr>isDeleted := isDeleted r', mtime := mtime r'\<rparr> \<and>
                       (live i r \<or> r' = r))
     (rows (db w)) (rows (db (snd (deleteResolverHandler i w)))) \<and>
   length (rows (db w)) \<le> length (rows (db (snd (createApp env rq w)))) \<and>
   list_all2 (\<lambda>r r'. id' r' = id' r \<and> ctime r' = ctime r)
     (rows (db w)) (take (length (rows (db w))) (rows (db (snd (createApp env rq w)))))"
proof (intro conjI impI)
  show "list_all2 (\<lambda>r r'. id' r' = id' r \<and> ctime r' = ctime r \<and> isDeleted r' = isDeleted r \<and>
                       (live i r \<or> r' = r))
     (rows (db w)) (rows (db (snd (updateResolverHandler request env i w))))"
    using update_db_cases[of request env i w]
    by (auto simp add: setValues_def split: if_splits intro!: list_all2_mapped list_all2_refl_on)
next
  assume h: "readJsonBody request = Inr parsed \<and>
    g = fields_v (validateResolverPayload parsed updateMode)"
  show "list_all2 (\<lambda>r r'. (provider_opt g = None \<longrightarrow> provider r' = provider r) \<and>
                          (hostname_opt g = None \<longrightarrow> hostname r' = hostname r) \<and>
                          (alias_opt g = None \<longrightarrow> alias' r' = alias' r) \<and>
                          (ipv4_opt g = None \<longrightarrow> ipv4 r' = ipv4 r))
        (rows (db w)) (rows (db (snd (updateResolverHandler request env i w))))"
    using update_db_cases[of request env i w] h
    by (auto simp add: setValues_def split: if_splits intro!: list_all2_mapped list_all2_refl_on)
next
  show "list_all2 (\<lambda>r r'. r' = r\<lparr>isDeleted := isDeleted r', mtime := mtime r'\<rparr> \<and>
                       (live i r \<or> r' = r))
     (rows (db w)) (rows (db (snd (deleteResolverHandler i w))))"
    by (auto simp add: delete_db split: if_splits intro!: list_all2_mapped)
next
  show "length (rows (db w)) \<le> length (rows (db (snd (createApp env rq w))))"
    using route_db_cases[of env rq w] by auto
next
  show "list_all2 (\<lambda>r r'. id' r' = id' r \<and> ctime r' = ctime r)
     (rows (db w)) (take (length (rows (db w))) (rows (db (snd (createApp env rq w)))))"
    using route_db_cases[of env rq w]
    by (auto simp add: setValues_def split: if_splits intro!: list_all2_mapped list_all2_refl_on)
qed

lemma list_all2_same_column:
  "list_all2 (\<lambda>r r'. f r' = f r) xs ys \<Longrightarrow> map f ys = map f xs"
  by (induction xs ys rule: list_all2_induct) simp_all

theorem mutations_keep_the_rest_witness:
  "map ctime (rows (db (snd (updateResolverHandler patch1 env0 1 (world0 [row1] []))))) = [''t0''] \<and>
   map provider (rows (db (snd (updateResolverHandler patch1 env0 1 (world0 [row1] []))))) = [''cf''] \<and>
   map ctime (rows (db (snd (deleteResolverHandler 1 (world0 [row1] []))))) = [''t0'']"
proof -
  let ?q = "map_of [(''ipv4'', JStr ''1.2.3.5'')]"
  let ?g = "fields_v (validateResolverPayload ?q updateMode)"
  let ?w = "world0 [row1] []"
  note T = mutations_keep_the_rest[where request = patch1 and parsed = ?q and g = ?g
      and i = 1 and w = ?w and env = env0 and rq = GetRoot]
  have b1: "readJsonBody patch1 = Inr ?q"
    by (simp add: patch1_def validate_eval)
  have none: "provider_opt ?g = None"
    by (simp add: validate_eval)
  have "list_all2 (\<lambda>r r'. id' r' = id' r \<and> ctime r' = ctime r \<and> isDeleted r' = isDeleted r \<and>
                       (live 1 r \<or> r' = r))
     (rows (db ?w)) (rows (db (snd (updateResolverHandler patch1 env0 1 ?w))))"
    using T by blast
  then have "list_all2 (\<lambda>r r'. ctime r' = ctime r)
     (rows (db ?w)) (rows (db (snd (updateResolverHandler patch1 env0 1 ?w))))"
    by (rule list_all2_mono) simp
  then have a: "map ctime (rows (db (snd (updateResolverHandler patch1 env0 1 ?w)))) =
      map ctime (rows (db ?w))"
    by (rule list_all2_same_column)
  have "list_all2 (\<lambda>r r'. (provider_opt ?g = None \<longrightarrow> provider r' = provider r) \<and>
                          (hostname_opt ?g = None \<longrightarrow> hostname r' = hostname r) \<and>
                          (alias_opt ?g = None \<longrightarrow> alias' r' = alias' r) \<and>
                          (ipv4_opt ?g = None \<longrightarrow> ipv4 r' = ipv4 r))
        (rows (db ?w)) (rows (db (snd (updateResolverHandler patch1 env0 1 ?w))))"
    by (rule T[THEN conjunct2, THEN conjunct1, THEN mp]) (intro conjI refl b1)
  then have "list_all2 (\<lambda>r r'. provider r' = provider r)
     (rows (db ?w)) (rows (db (snd (updateResolverHandler patch1 env0 1 ?w))))"
    by (rule list_all2_mono) (use none in simp)
  then have b: "map provider (rows (db (snd (updateResolverHandler patch1 env0 1 ?w)))) =
      map provider (rows (db ?w))"
    by (rule list_all2_same_column)
  have "list_all2 (\<lambda>r r'. r' = r\<lparr>isDeleted := isDeleted r', mtime := mtime r'\<rparr> \<and>
                       (live 1 r \<or> r' = r))
     (rows (db ?w)) (rows (db (snd (deleteResolverHandler 1 ?w))))"
    using T by blast
  then have "list_all2 (\<lambda>r r'. ctime r' = ctime r)
     (rows (db ?w)) (rows (db (snd (deleteResolverHandler 1 ?w))))"
    by (rule list_all2_mono) (metis ResolverRow.select_convs(8) ResolverRow.surjective
        ResolverRow.update_convs(6) ResolverRow.update_convs(7))
  then have c: "map ctime (rows (db (snd (deleteResolverHandler 1 ?w)))) = map ctime (rows (db ?w))"
    by (rule list_all2_same_column)
  show ?thesis
    unfolding a b c by (simp add: world0_def row1_def)
qed

section \<open>Claims about the uniqueness of the pair\<close>

lemma status_simps:
  "status (jsonError m s e) = s" "status (jsonResponse b s) = s"
  by (simp_all add: jsonError_def jsonResponse_def)

lemma live_row_collides:
  assumes "r \<in> set (rows (db w))" and "isDeleted r = 0"
    and "provider r = p" and "hostname r = h"
  shows "collides (db w) (newRow w p h f)"
proof -
  have "id' r \<noteq> nextId (db w)"
    using nextId_fresh[OF assms(1)] by simp
  then have "list_ex (\<lambda>x. indexed (uniqueIndex (db w)) x \<and> id' x \<noteq> id' (newRow w p h f) \<and>
                   provider x = provider (newRow w p h f) \<and>
                   hostname x = hostname (newRow w p h f)) (rows (db w))"
    unfolding list_ex_iff using assms
    by (intro bexI[of _ r]) (simp_all add: indexed_def newRow_def split: index_scope.splits)
  moreover have "indexed (uniqueIndex (db w)) (newRow w p h f)"
    by (simp add: indexed_def newRow_def split: index_scope.splits)
  ultimately show ?thesis
    by (simp add: collides_def)
qed

lemma create_conflict:
  assumes "readJsonBody request = Inr parsed"
    and "errors_v (validateResolverPayload parsed createMode) = []"
    and "provider_opt (acceptedFields parsed) = Some p"
    and "hostname_opt (acceptedFields parsed) = Some h"
    and "r \<in> set (rows (db w))" and "isDeleted r = 0"
    and "provider r = p" and "hostname r = h"
  shows "createResolverHandler request env w =
     (jsonError ''A resolver with the same provider and hostname already exists'' 409 None, w)"
  unfolding create_outcome[OF assms(1-4)] Let_def
  using live_row_collides[OF assms(5-8)] by simp

lemma create_success:
  assumes "status (fst (createResolverHandler request env w)) = 201"
    and "readJsonBody request = Inr parsed"
  shows "\<exists>p h. provider_opt (acceptedFields parsed) = Some p \<and>
           hostname_opt (acceptedFields parsed) = Some h \<and>
           db (snd (createResolverHandler request env w)) =
             (db w)\<lparr>rows := rows (db w) @ [newRow w p h (acceptedFields parsed)],
                     sequence := nextId (db w)\<rparr>"
proof (cases "errors_v (validateResolverPayload parsed createMode) = []")
  case False
  then show ?thesis
    using assms
    by (simp add: createResolverHandler_def createMode_def[symmetric] Let_def status_simps)
next
  case valid: True
  obtain p h where ph: "provider_opt (acceptedFields parsed) = Some p"
      "hostname_opt (acceptedFields parsed) = Some h"
    using create_valid[OF valid] by blast
  let ?r = "newRow w p h (acceptedFields parsed)"
  have nc: "\<not> collides (db w) ?r"
    using assms(1) unfolding create_outcome[OF assms(2) valid ph] Let_def
    by (auto simp add: status_simps split: if_splits)
  have "db (snd (createResolverHandler request env w)) =
      (db w)\<lparr>rows := rows (db w) @ [?r], sequence := id' ?r\<rparr>"
    unfolding create_outcome[OF assms(2) valid ph] Let_def
    using nc by (simp add: sync_case_db)
  then show ?thesis
    using ph by (simp add: newRow_def)
qed

text \<open>
  Claim C1.  When the table holds a row that is not deleted with the pair of provider
  and host name that a create request has validated, the request inserts nothing: the
  handler answers 409 and the world is as it was.  Hence a create that has answered 201
  is followed, for a request with the same validated pair, by 409 and an unchanged
  table.  This holds for both scopes of the unique index.
\<close>

theorem pair_is_unique:
  "(readJsonBody request = Inr parsed \<and>
    f = fields_v (validateResolverPayload parsed createMode) \<and>
    errors_v (validateResolverPayload parsed createMode) = [] \<and>
    provider_opt f = Some p \<and> hostname_opt f = Some h \<and>
    r \<in> set (rows (db w)) \<and> isDeleted r = 0 \<and> provider r = p \<and> hostname r = h
    \<longrightarrow>
      createResolverHandler request env w =
        (jsonError ''A resolver with the same provider and hostname already exists'' 409 None, w)) \<and>
   (readJsonBody first = Inr parsed1 \<and> readJsonBody second = Inr parsed2 \<and>
    status (fst (createResolverHandler first env1 v)) = 201 \<and>
    errors_v (validateResolverPayload parsed2 createMode) = [] \<and>
    provider_opt (fields_v (validateResolverPayload parsed2 createMode)) =
      provider_opt (fields_v (validateResolverPayload parsed1 createMode)) \<and>
    hostname_opt (fields_v (validateResolverPayload parsed2 createMode)) =
      hostname_opt (fields_v (validateResolverPayload parsed1 createMode))
    \<longrightarrow>
      createResolverHandler second env2 (snd (createResolverHandler first env1 v)) =
        (jsonError ''A resolver with the same provider and hostname already exists'' 409 None,
         snd (createResolverHandler first env1 v)))"
proof (intro conjI impI)
  assume h: "readJsonBody request = Inr parsed \<and>
    f = fields_v (validateResolverPayload parsed createMode) \<and>
    errors_v (validateResolverPayload parsed createMode) = [] \<and>
    provider_opt f = Some p \<and> hostname_opt f = Some h \<and>
    r \<in> set (rows (db w)) \<and> isDeleted r = 0 \<and> provider r = p \<and> hostname r = h"
  then have f: "f = acceptedFields parsed" by (simp add: validate_fields)
  from h show "createResolverHandler request env w =
        (jsonError ''A resolver with the same provider and hostname already exists'' 409 None, w)"
    unfolding f by (intro create_conflict[of request parsed p h r]) blast+
next
  assume h: "readJsonBody first = Inr parsed1 \<and> readJsonBody second = Inr parsed2 \<and>
    status (fst (createResolverHandler first env1 v)) = 201 \<and>
    errors_v (validateResolverPayload parsed2 createMode) = [] \<and>
    provider_opt (fields_v (validateResolverPayload parsed2 createMode)) =
      provider_opt (fields_v (validateResolverPayload parsed1 createMode)) \<and>
    hostname_opt (fields_v (validateResolverPayload parsed2 createMode)) =
      hostname_opt (fields_v (validateResolverPayload parsed1 createMode))"
  let ?v1 = "snd (createResolverHandler first env1 v)"
  from h obtain p q where
    ph: "provider_opt (acceptedFields parsed1) = Some p" "hostname_opt (acceptedFields parsed1) = Some q"
    and d: "db ?v1 = (db v)\<lparr>rows := rows (db v) @ [newRow v p q (acceptedFields parsed1)],
                           sequence := nextId (db v)\<rparr>"
    using create_success[of first env1 v parsed1] by blast
  let ?r = "newRow v p q (acceptedFields parsed1)"
  have mem: "?r \<in> set (rows (db ?v1))"
    by (simp add: d)
  have facts: "isDeleted ?r = 0" "provider ?r = p" "hostname ?r = q"
    by (simp_all add: newRow_def)
  have ph2: "provider_opt (acceptedFields parsed2) = Some p"
    "hostname_opt (acceptedFields parsed2) = Some q"
    using h ph by (simp_all add: validate_fields)
  from h have b2: "readJsonBody second = Inr parsed2"
    and v2: "errors_v (validateResolverPayload parsed2 createMode) = []"
    by blast+
  show "createResolverHandler second env2 ?v1 =
        (jsonError ''A resolver with the same provider and hostname already exists'' 409 None, ?v1)"
    by (rule create_conflict[OF b2 v2 ph2 mem facts])
qed

theorem pair_is_unique_witness:
  "createResolverHandler body1 env0 (world0 [row1] []) =
     (jsonError ''A resolver with the same provider and hostname already exists'' 409 None,
      world0 [row1] []) \<and>
   status (fst (createResolverHandler body1 env0 (world0 [] []))) = 201 \<and>
   status (fst (createResolverHandler body1 env0
                  (snd (createResolverHandler body1 env0 (world0 [] []))))) = 409"
proof -
  let ?p = "map_of [(''provider'', JStr ''cf''), (''hostname'', JStr ''a.example.com''),
                    (''ipv4'', JStr ''1.2.3.4'')]"
  let ?f = "fields_v (validateResolverPayload ?p createMode)"
  have a1: "readJsonBody body1 = Inr ?p"
    by (simp add: body1_def validate_eval)
  have a2: "errors_v (validateResolverPayload ?p createMode) = []"
    by (simp add: validate_eval)
  have a3: "provider_opt ?f = Some ''cf''" "hostname_opt ?f = Some ''a.example.com''"
    by (simp_all add: validate_eval)
  have a4: "row1 \<in> set (rows (db (world0 [row1] [])))" "isDeleted row1 = 0"
    "provider row1 = ''cf''" "hostname row1 = ''a.example.com''"
    by (simp_all add: world0_def row1_def)
  have ok: "status (fst (createResolverHandler body1 env0 (world0 [] []))) = 201"
  proof -
    have ph: "provider_opt (acceptedFields ?p) = Some ''cf''"
      "hostname_opt (acceptedFields ?p) = Some ''a.example.com''"
      using a3 by (simp_all add: validate_fields)
    show ?thesis
      unfolding create_outcome[OF a1 a2 ph]
      by (simp add: validate_eval store_eval sync_eval world0_def env0_def)
  qed
  note T = pair_is_unique[where request = body1 and parsed = ?p and f = ?f and p = "''cf''"
      and h = "''a.example.com''" and r = row1 and w = "world0 [row1] []" and env = env0
      and first = body1 and second = body1 and ?parsed1.0 = ?p and ?parsed2.0 = ?p
      and ?env1.0 = env0 and ?env2.0 = env0 and v = "world0 [] []"]
  have A: "createResolverHandler body1 env0 (world0 [row1] []) =
     (jsonError ''A resolver with the same provider and hostname already exists'' 409 None,
      world0 [row1] [])"
    by (rule T[THEN conjunct1, THEN mp]) (intro conjI refl a1 a2 a3 a4)
  have B: "createResolverHandler body1 env0 (snd (createResolverHandler body1 env0 (world0 [] []))) =
        (jsonError ''A resolver with the same provider and hostname already exists'' 409 None,
         snd (createResolverHandler body1 env0 (world0 [] [])))"
    by (rule T[THEN conjunct2, THEN mp]) (intro conjI refl a1 a2 ok)
  show ?thesis
    using A ok by (simp add: B status_simps)
qed

section \<open>Claims about paging\<close>

lemmas number_eval =
  Number_def StringToNumber_def trim_def isWhiteSpace_def nonDecimal_def signedDecimal_def
  unsignedDecimal_def signedInteger_def scale10_def inRange_def radixDigit_def
  isDigit_def inClass_def digitsValue_def digitValue_def isFinite_def valueOf_def

lemma Number_half: "Number (Some ''0.5'') = Fin (1 / 2)"
  by (simp add: number_eval)

lemma parseLimit_cases:
  "parseLimit v fallback mx =
     (case Number v of
        Fin q \<Rightarrow> if q \<le> 0 then fallback else min \<lfloor>q\<rfloor> mx
      | _ \<Rightarrow> fallback)"
  by (simp add: parseLimit_def isFinite_def valueOf_def Let_def split: jsnum.splits)

lemma parseOffset_cases:
  "parseOffset v =
     (case Number v of
        Fin q \<Rightarrow> if q < 0 then 0 else \<lfloor>q\<rfloor>
      | _ \<Rightarrow> 0)"
  by (simp add: parseOffset_def isFinite_def valueOf_def Let_def split: jsnum.splits)

lemma parseLimit_range: "0 \<le> parseLimit v 100 500 \<and> parseLimit v 100 500 \<le> 500"
  by (simp add: parseLimit_cases split: jsnum.splits)

lemma parseLimit_absent: "parseLimit None 100 500 = 100"
  by (simp add: parseLimit_cases Number_def)

text \<open>
  Claim C7 fails on the code: the limit parameter \<^verbatim>\<open>0.5\<close> is finite and positive, so it
  passes the guard, and is floored afterwards: the effective limit is 0 and the
  handler lists nothing, whatever the table holds.
\<close>

theorem limit_below_one:
  "parseLimit (Some ''0.5'') 100 500 = 0 \<and>
   fst (listResolversHandler [''limit'' \<mapsto> ''0.5''] (world0 [row1] [])) =
     jsonResponse (ListReply [] 0 0 0) 200"
proof -
  have l: "parseLimit (Some ''0.5'') 100 500 = 0"
    by (simp add: parseLimit_cases Number_half floor_eq_iff)
  have o: "parseOffset None = 0"
    by (simp add: parseOffset_cases Number_def)
  show ?thesis
    by (simp add: l o listResolversHandler_def Let_def parseBoolean_def optionalString_def)
qed

theorem limit_below_one_witness: "parseLimit (Some ''0.5'') 100 500 < 1"
  using limit_below_one by simp

section \<open>Claims about soft deletion\<close>

lemma same_id_same_row:
  assumes "distinct (map id' xs)" and "x \<in> set xs" and "y \<in> set xs" and "id' x = id' y"
  shows "x = y"
  using assms by (meson distinct_map inj_on_eq_iff)

lemma find_live_mem:
  assumes "findResolverById i False w = Some r"
  shows "r \<in> set (rows (db w)) \<and> live i r"
proof -
  obtain more where "filter (live i) (rows (db w)) = r # more"
    using assms by (auto simp add: find_live split: list.splits)
  then have "r \<in> set (filter (live i) (rows (db w)))"
    by simp
  then show ?thesis by simp
qed

lemma delete_gone:
  assumes "distinct (map id' (rows (db w)))" and "findResolverById i False w = Some r"
  shows "gone i (db (snd (deleteResolverHandler i w)))"
proof -
  note m = find_live_mem[OF assms(2)]
  let ?F = "\<lambda>x. if live i x then x\<lparr>isDeleted := 1, mtime := now w\<rparr> else x"
  have "?F r \<in> set (map ?F (rows (db w)))" and "id' (?F r) = i"
    using m by (simp_all add: live_def)
  then have ex: "list_ex (\<lambda>x. id' x = i) (map ?F (rows (db w)))"
    unfolding list_ex_iff by blast
  have "isDeleted (?F x) = 1" if "x \<in> set (rows (db w))" "id' (?F x) = i" for x
  proof -
    have "id' x = i"
      using that(2) by (simp split: if_splits)
    then have "x = r"
      using same_id_same_row[OF assms(1) that(1) conjunct1[OF m]] m
      by (simp add: live_def)
    then show ?thesis using m by simp
  qed
  then have "\<forall>x \<in> set (rows (db w)). id' (?F x) = i \<longrightarrow> isDeleted (?F x) = 1"
    by blast
  then have all: "list_all (\<lambda>x. id' x = i \<longrightarrow> isDeleted x = 1) (map ?F (rows (db w)))"
    unfolding list_all_iff set_map ball_simps(9) .
  show ?thesis
    using ex all by (simp add: gone_def delete_db)
qed

lemma gone_has_row: "gone i d \<Longrightarrow> \<exists>r \<in> set (rows d). id' r = i"
  by (auto simp add: gone_def list_ex_iff)

lemma gone_map:
  assumes "gone i d" and "\<And>r. id' (F r) = id' r"
    and "\<And>r. isDeleted r = 1 \<Longrightarrow> isDeleted (F r) = 1"
  shows "gone i (d\<lparr>rows := map F (rows d)\<rparr>)"
proof -
  from assms(1) obtain r where r: "r \<in> set (rows d)" "id' r = i"
    using gone_has_row by blast
  then have "F r \<in> set (map F (rows d))" and "id' (F r) = i"
    by (simp_all add: assms(2))
  then have ex: "list_ex (\<lambda>x. id' x = i) (map F (rows d))"
    unfolding list_ex_iff by blast
  have "isDeleted (F x) = 1" if "x \<in> set (rows d)" "id' (F x) = i" for x
  proof -
    have "isDeleted x = 1"
      using assms(1) that by (auto simp add: gone_def list_all_iff assms(2))
    then show ?thesis by (rule assms(3))
  qed
  then have all: "list_all (\<lambda>x. id' x = i \<longrightarrow> isDeleted x = 1) (map F (rows d))"
    by (auto simp add: list_all_iff)
  show ?thesis
    using ex all by (simp add: gone_def)
qed

lemma gone_route:
  assumes "gone i (db w)"
  shows "gone i (db (snd (createApp env rq w)))"
proof -
  from assms obtain r where r: "r \<in> set (rows (db w))" "id' r = i"
    using gone_has_row by blast
  have fresh: "i < nextId (db w)"
    using nextId_fresh[OF r(1)] r(2) by simp
  from route_db_cases[of env rq w] show ?thesis
  proof (elim disjE exE conjE)
    assume "db (snd (createApp env rq w)) = db w"
    then show ?thesis using assms by simp
  next
    fix x
    assume "id' x = nextId (db w)"
      and "db (snd (createApp env rq w)) = (db w)\<lparr>rows := rows (db w) @ [x], sequence := id' x\<rparr>"
    then show ?thesis
      using assms fresh by (auto simp add: gone_def)
  next
    fix j parsed
    assume d: "db (snd (createApp env rq w)) =
        (db w)\<lparr>rows := map (\<lambda>r. if live j r
                                 then setValues (fields_v (validateResolverPayload parsed updateMode))
                                        (now w) r
                                 else r) (rows (db w))\<rparr>"
    show ?thesis
      unfolding d by (rule gone_map[OF assms]) (simp_all add: setValues_def)
  next
    fix j
    assume d: "db (snd (createApp env rq w)) =
        (db w)\<lparr>rows := map (\<lambda>r. if live j r then r\<lparr>isDeleted := 1, mtime := now w\<rparr> else r)
                          (rows (db w))\<rparr>"
    show ?thesis
      unfolding d by (rule gone_map[OF assms]) simp_all
  qed
qed

lemma gone_happen: "gone i (db w) \<Longrightarrow> gone i (db (happen e w))"
  by (cases e) (simp_all add: gone_route)

lemma gone_after: "gone i (db w) \<Longrightarrow> gone i (db (after es w))"
  unfolding after_def
  by (induction es arbitrary: w) (simp_all add: gone_happen)

lemma gone_no_live: "gone i (db w) \<Longrightarrow> filter (live i) (rows (db w)) = []"
  by (auto simp add: gone_def list_all_iff live_def filter_empty_conv)

lemma gone_find_live: "gone i (db w) \<Longrightarrow> findResolverById i False w = None"
  by (simp add: find_live gone_no_live)

lemma gone_find_any:
  assumes "gone i (db w)"
  shows "\<exists>r. findResolverById i True w = Some r \<and> id' r = i \<and> isDeleted r = 1"
proof -
  from assms obtain x where "x \<in> set (rows (db w))" "id' x = i"
    using gone_has_row by blast
  then have "filter (\<lambda>r. id' r = i) (rows (db w)) \<noteq> []"
    by (auto simp add: filter_empty_conv)
  then obtain r more where f: "filter (\<lambda>r. id' r = i) (rows (db w)) = r # more"
    by (cases "filter (\<lambda>r. id' r = i) (rows (db w))") auto
  then have "r \<in> set (filter (\<lambda>r. id' r = i) (rows (db w)))"
    by simp
  then have "r \<in> set (rows (db w))" "id' r = i"
    by simp_all
  then have "isDeleted r = 1"
    using assms by (auto simp add: gone_def list_all_iff)
  then show ?thesis
    using f \<open>id' r = i\<close> by (simp add: find_any)
qed

lemma update_not_found:
  assumes "readJsonBody request = Inr parsed"
    and "errors_v (validateResolverPayload parsed updateMode) = []"
    and "findResolverById i False w = None"
  shows "updateResolverHandler request env i w =
     (jsonError ''Resolver not found or already deleted'' 404 None, w)"
  using assms update_valid[OF assms(2)]
  by (simp add: updateResolverHandler_def updateMode_def[symmetric] Let_def validate_fields
        payload_eta)

lemma update_early_exit:
  assumes "\<not> (\<exists>parsed. readJsonBody request = Inr parsed \<and>
              errors_v (validateResolverPayload parsed updateMode) = [])"
  shows "status (fst (updateResolverHandler request env i w)) \<in> {400, 422} \<and>
         snd (updateResolverHandler request env i w) = w"
proof (cases "readJsonBody request")
  case (Inl err)
  then have "status err = 400"
    by (auto simp add: readJsonBody_def status_simps split: body_text.splits if_splits)
  then show ?thesis
    using Inl by (simp add: updateResolverHandler_def)
next
  case (Inr parsed)
  then have "errors_v (validateResolverPayload parsed updateMode) \<noteq> []"
    using assms by blast
  then show ?thesis
    using Inr
    by (simp add: updateResolverHandler_def updateMode_def[symmetric] Let_def status_simps)
qed

lemma list_excludes:
  assumes "gone i (db w)" and "\<not> parseBoolean (params ''includeDeleted'')"
  shows "i \<notin> set (map dto_id (itemsOf (sent (fst (listResolversHandler params w)))))"
proof -
  define conds :: "(ResolverRow \<Rightarrow> bool) list" where "conds =
      (if \<not> parseBoolean (params ''includeDeleted'') then [\<lambda>r. isDeleted r = 0] else []) @
      (case optionalString (params ''provider'') of Some p \<Rightarrow> [\<lambda>r. provider r = p] | None \<Rightarrow> []) @
      (case optionalString (params ''hostname'') of Some h \<Rightarrow> [\<lambda>r. hostname r = h] | None \<Rightarrow> [])"
  have q: "isDeleted r = 0" if "list_all (\<lambda>c. c r) conds" for r
    using that assms(2) by (simp add: conds_def)
  have items: "itemsOf (sent (fst (listResolversHandler params w))) =
      map toResolverDto
        (take (nat (parseLimit (params ''limit'') 100 500))
          (drop (nat (parseOffset (params ''offset'')))
            (rev (sort_key id' (filter (\<lambda>r. list_all (\<lambda>c. c r) conds) (rows (db w)))))))"
    by (simp add: listResolversHandler_def Let_def dbSelect_def jsonResponse_def conds_def)
  have "id' r \<noteq> i"
    if "r \<in> set (take n (drop k (rev (sort_key id' (filter (\<lambda>r. list_all (\<lambda>c. c r) conds)
                                                      (rows (db w)))))))"
    for r n k
  proof -
    from that have "r \<in> set (rev (sort_key id' (filter (\<lambda>r. list_all (\<lambda>c. c r) conds)
                                                  (rows (db w)))))"
      by (meson in_set_dropD in_set_takeD)
    then have "r \<in> set (rows (db w))" "isDeleted r = 0"
      using q by simp_all
    then show ?thesis
      using assms(1) by (auto simp add: gone_def list_all_iff)
  qed
  then show ?thesis
    unfolding items by (auto simp add: toResolverDto_def)
qed

lemma delete_found:
  assumes "findResolverById i False w = Some r"
  shows "deleteResolverHandler i w =
     (jsonResponse (RecordReply (toResolverDto (r\<lparr>isDeleted := 1, mtime := now w\<rparr>))) 200,
      w\<lparr>db := (db w)\<lparr>rows := map (\<lambda>x. if live i x then x\<lparr>isDeleted := 1, mtime := now w\<rparr> else x)
                                 (rows (db w))\<rparr>\<rparr>)"
  using assms by (auto simp add: delete_outcome find_live split: list.splits)

lemma delete_not_found:
  assumes "findResolverById i False w = None"
  shows "deleteResolverHandler i w =
     (jsonError ''Resolver not found or already deleted'' 404 None, w)"
  using assms by (auto simp add: delete_outcome find_live split: list.splits)

lemma get_default_not_found:
  assumes "gone i (db w)" and "\<not> parseBoolean (params ''includeDeleted'')"
  shows "fst (getResolverHandler i params w) = jsonError ''Resolver not found'' 404 None"
  using assms gone_find_live[OF assms(1)] by (simp add: getResolverHandler_def)

lemma get_deleted_found:
  assumes "gone i (db w)" and "parseBoolean (params ''includeDeleted'')"
  shows "\<exists>dto. fst (getResolverHandler i params w) = jsonResponse (RecordReply dto) 200 \<and>
           dto_id dto = i \<and> dto_isDeleted dto"
  using assms(2) gone_find_any[OF assms(1)]
  by (auto simp add: getResolverHandler_def toResolverDto_def)

lemma update_of_gone:
  assumes "gone i (db w)"
  shows "status (fst (updateResolverHandler request env i w)) \<in> {400, 422, 404}"
proof (cases "\<exists>parsed. readJsonBody request = Inr parsed \<and>
              errors_v (validateResolverPayload parsed updateMode) = []")
  case True
  then obtain parsed where "readJsonBody request = Inr parsed"
    "errors_v (validateResolverPayload parsed updateMode) = []"
    by blast
  then show ?thesis
    using update_not_found[OF _ _ gone_find_live[OF assms], of request parsed env]
    by (simp add: status_simps)
next
  case False
  then show ?thesis
    using update_early_exit[of request env i w] by auto
qed

lemma never_undeleted:
  "list_all2 (\<lambda>x x'. isDeleted x = 0 \<or> isDeleted x' = isDeleted x)
     (rows (db w)) (take (length (rows (db w))) (rows (db (snd (createApp env rq w)))))"
  using route_db_cases[of env rq w]
  by (auto simp add: setValues_def live_def split: if_splits
        intro!: list_all2_mapped list_all2_refl_on)

text \<open>
  Claim C5, as stated, fails: after a successful delete, an update of the same id whose
  body has no recognized field is answered 422, not 404, since validation comes before
  the lookup.
\<close>

theorem deleted_update_counterexample:
  "status (fst (deleteResolverHandler 1 (world0 [row1] []))) = 200 \<and>
   status (fst (updateResolverHandler (Parses (JObj [])) env0 1
                  (snd (deleteResolverHandler 1 (world0 [row1] []))))) = 422"
proof -
  have f: "findResolverById 1 False (world0 [row1] []) = Some row1"
    by (simp add: store_eval Let_def world0_def row1_def)
  have "\<not> (\<exists>parsed. readJsonBody (Parses (JObj [])) = Inr parsed \<and>
              errors_v (validateResolverPayload parsed updateMode) = [])"
    by (simp add: validate_eval)
  then have "status (fst (updateResolverHandler (Parses (JObj [])) env0 1
                  (snd (deleteResolverHandler 1 (world0 [row1] []))))) \<in> {400, 422}"
    by (rule update_early_exit[THEN conjunct1])
  moreover have "status (fst (updateResolverHandler (Parses (JObj [])) env0 1
                  (snd (deleteResolverHandler 1 (world0 [row1] []))))) \<noteq> 400"
    by (simp add: updateResolverHandler_def validate_eval Let_def)
  ultimately have u: "status (fst (updateResolverHandler (Parses (JObj [])) env0 1
                  (snd (deleteResolverHandler 1 (world0 [row1] []))))) = 422"
    by blast
  have d: "status (fst (deleteResolverHandler 1 (world0 [row1] []))) = 200"
    unfolding delete_found[OF f] by (simp add: status_simps)
  from d u show ?thesis
    by (rule conjI)
qed

text \<open>
  Claim C5, amended.  A delete finds only a row of the given id that is not deleted:
  without one it answers 404 and changes nothing; with one it marks the row deleted,
  sets its modification time, keeps the row, and leaves provider, console and clock
  alone.  After a delete has answered 200 (in a table whose ids are distinct), and
  after any further events: a delete of that id answers 404; an update of that id
  answers 400, 422 or 404, and 404 whenever its body passes parsing and validation; a
  get or list that does not include deleted rows does not show the record; a get that
  includes them answers with the record, marked deleted.  No request of the
  application changes a deletion flag that is not 0.
\<close>

theorem soft_delete_is_final:
  "(findResolverById i False w = None \<longrightarrow>
      deleteResolverHandler i w =
        (jsonError ''Resolver not found or already deleted'' 404 None, w)) \<and>
   (findResolverById i False w = Some r \<longrightarrow>
      deleteResolverHandler i w =
        (jsonResponse (RecordReply (toResolverDto (r\<lparr>isDeleted := 1, mtime := now w\<rparr>))) 200,
         w\<lparr>db := (db w)\<lparr>rows := map (\<lambda>x. if live i x then x\<lparr>isDeleted := 1, mtime := now w\<rparr>
                                              else x) (rows (db w))\<rparr>\<rparr>)) \<and>
   (distinct (map id' (rows (db w))) \<and> status (fst (deleteResolverHandler i w)) = 200 \<and>
    v = after es (snd (deleteResolverHandler i w)) \<longrightarrow>
      fst (deleteResolverHandler i v) =
        jsonError ''Resolver not found or already deleted'' 404 None \<and>
      (\<forall>request env. status (fst (updateResolverHandler request env i v)) \<in> {400, 422, 404}) \<and>
      (\<forall>request env parsed.
         readJsonBody request = Inr parsed \<and>
         errors_v (validateResolverPayload parsed updateMode) = [] \<longrightarrow>
           updateResolverHandler request env i v =
             (jsonError ''Resolver not found or already deleted'' 404 None, v)) \<and>
      (\<forall>params. \<not> parseBoolean (params ''includeDeleted'') \<longrightarrow>
         fst (getResolverHandler i params v) = jsonError ''Resolver not found'' 404 None \<and>
         i \<notin> set (map dto_id (itemsOf (sent (fst (listResolversHandler params v)))))) \<and>
      (\<forall>params. parseBoolean (params ''includeDeleted'') \<longrightarrow>
         (\<exists>dto. fst (getResolverHandler i params v) = jsonResponse (RecordReply dto) 200 \<and>
                dto_id dto = i \<and> dto_isDeleted dto))) \<and>
   list_all2 (\<lambda>x x'. isDeleted x = 0 \<or> isDeleted x' = isDeleted x)
     (rows (db w)) (take (length (rows (db w))) (rows (db (snd (createApp env' rq w)))))"
proof (intro conjI impI)
  assume "findResolverById i False w = None"
  then show "deleteResolverHandler i w =
        (jsonError ''Resolver not found or already deleted'' 404 None, w)"
    by (rule delete_not_found)
next
  assume "findResolverById i False w = Some r"
  then show "deleteResolverHandler i w =
        (jsonResponse (RecordReply (toResolverDto (r\<lparr>isDeleted := 1, mtime := now w\<rparr>))) 200,
         w\<lparr>db := (db w)\<lparr>rows := map (\<lambda>x. if live i x then x\<lparr>isDeleted := 1, mtime := now w\<rparr>
                                              else x) (rows (db w))\<rparr>\<rparr>)"
    by (rule delete_found)
next
  show "list_all2 (\<lambda>x x'. isDeleted x = 0 \<or> isDeleted x' = isDeleted x)
     (rows (db w)) (take (length (rows (db w))) (rows (db (snd (createApp env' rq w)))))"
    by (rule never_undeleted)
next
  assume h: "distinct (map id' (rows (db w))) \<and> status (fst (deleteResolverHandler i w)) = 200 \<and>
    v = after es (snd (deleteResolverHandler i w))"
  have "findResolverById i False w \<noteq> None"
  proof
    assume "findResolverById i False w = None"
    then have "status (fst (deleteResolverHandler i w)) = 404"
      by (simp add: delete_not_found status_simps)
    then show False
      using h by simp
  qed
  then obtain x where x: "findResolverById i False w = Some x"
    by blast
  have g: "gone i (db v)"
    using h gone_after[OF delete_gone[OF _ x], of es] by simp
  show "fst (deleteResolverHandler i v) =
        jsonError ''Resolver not found or already deleted'' 404 None"
    by (simp add: delete_not_found[OF gone_find_live[OF g]])
  show "\<forall>request env. status (fst (updateResolverHandler request env i v)) \<in> {400, 422, 404}"
    using update_of_gone[OF g] by blast
  show "\<forall>request env parsed.
         readJsonBody request = Inr parsed \<and>
         errors_v (validateResolverPayload parsed updateMode) = [] \<longrightarrow>
           updateResolverHandler request env i v =
             (jsonError ''Resolver not found or already deleted'' 404 None, v)"
    using update_not_found[OF _ _ gone_find_live[OF g]] by blast
  show "\<forall>params. \<not> parseBoolean (params ''includeDeleted'') \<longrightarrow>
         fst (getResolverHandler i params v) = jsonError ''Resolver not found'' 404 None \<and>
         i \<notin> set (map dto_id (itemsOf (sent (fst (listResolversHandler params v)))))"
    using get_default_not_found[OF g] list_excludes[OF g] by blast
  show "\<forall>params. parseBoolean (params ''includeDeleted'') \<longrightarrow>
         (\<exists>dto. fst (getResolverHandler i params v) = jsonResponse (RecordReply dto) 200 \<and>
                dto_id dto = i \<and> dto_isDeleted dto)"
    using get_deleted_found[OF g] by blast
qed


theorem soft_delete_is_final_witness:
  "fst (deleteResolverHandler 1
          (after [Outside ''t2'' \<lparr>records = [], calls = [], faults = []\<rparr>,
                  Request env0 (PatchResolver ''1'' patch1)]
             (snd (deleteResolverHandler 1 (world0 [row1] []))))) =
     jsonError ''Resolver not found or already deleted'' 404 None \<and>
   fst (getResolverHandler 1 (\<lambda>k. None)
          (after [Outside ''t2'' \<lparr>records = [], calls = [], faults = []\<rparr>,
                  Request env0 (PatchResolver ''1'' patch1)]
             (snd (deleteResolverHandler 1 (world0 [row1] []))))) =
     jsonError ''Resolver not found'' 404 None"
proof -
  let ?v = "after [Outside ''t2'' \<lparr>records = [], calls = [], faults = []\<rparr>,
                   Request env0 (PatchResolver ''1'' patch1)]
              (snd (deleteResolverHandler 1 (world0 [row1] [])))"
  have f: "findResolverById 1 False (world0 [row1] []) = Some row1"
    by (simp add: store_eval Let_def world0_def row1_def)
  have d: "status (fst (deleteResolverHandler 1 (world0 [row1] []))) = 200"
    unfolding delete_found[OF f] by (simp add: status_simps)
  have s: "distinct (map id' (rows (db (world0 [row1] []))))"
    by (simp add: world0_def)
  have p: "\<not> parseBoolean ((\<lambda>k. None) ''includeDeleted'')"
    by (simp add: parseBoolean_def)
  have t: "distinct (map id' (rows (db (world0 [row1] [])))) \<and>
           status (fst (deleteResolverHandler 1 (world0 [row1] []))) = 200 \<and> ?v = ?v"
    using s d by simp
  note all = soft_delete_is_final[THEN conjunct2, THEN conjunct2, THEN conjunct1, THEN mp, OF t]
  have a: "fst (deleteResolverHandler 1 ?v) =
             jsonError ''Resolver not found or already deleted'' 404 None"
    by (rule all[THEN conjunct1])
  have b: "fst (getResolverHandler 1 (\<lambda>k. None) ?v) = jsonError ''Resolver not found'' 404 None"
    using all[THEN conjunct2, THEN conjunct2, THEN conjunct2, THEN conjunct1, THEN spec,
              THEN mp, OF p, THEN conjunct1] .
  from a b show ?thesis
    by (rule conjI)
qed

section \<open>Claims about reconciliation\<close>

lemma served_next:
  assumes "served (Suc n) w" and "faults (cf v) = tl (faults (cf w))"
  shows "served n v"
  using assms by (cases "faults (cf w)") (simp_all add: served_def)

lemma served_less:
  assumes "served (Suc n) w"
  shows "served n w"
  using assms unfolding served_def list_all_iff
  by (meson in_set_takeD le_SucI order_refl set_take_subset_set_take subsetD)

lemma fetch_served:
  assumes "served (Suc n) w"
  shows "fst (fetch token rq w) = Inr (fst (answer rq (records (cf w))))"
    and "records (cf (snd (fetch token rq w))) = snd (answer rq (records (cf w)))"
    and "faults (cf (snd (fetch token rq w))) = tl (faults (cf w))"
proof -
  have n: "(case faults (cf w) of [] \<Rightarrow> None | x # _ \<Rightarrow> x) = None"
    using assms by (cases "faults (cf w)") (simp_all add: served_def)
  show "fst (fetch token rq w) = Inr (fst (answer rq (records (cf w))))"
    by (simp add: fetch_def Let_def n split: prod.splits)
  show "records (cf (snd (fetch token rq w))) = snd (answer rq (records (cf w)))"
    by (simp add: fetch_def Let_def n split: prod.splits)
  show "faults (cf (snd (fetch token rq w))) = tl (faults (cf w))"
    by (simp add: fetch_def Let_def n split: prod.splits)
qed

lemma fetch_writes:
  "writes (snd (fetch token rq w)) = writes w @ (if isWrite rq then [rq] else [])"
  by (simp add: writes_def fetch_calls)

lemma fetchDnsRecord_snd:
  "snd (fetchDnsRecord z t host w) = snd (fetch t (ListRecords z ''A'' host) w)"
  by (auto simp add: fetchDnsRecord_def split: prod.splits sum.splits payload.splits
        option.splits cf_result.splits)

lemma fetchDnsRecord_writes:
  "writes (snd (fetchDnsRecord z t host w)) = writes w"
  by (simp add: fetchDnsRecord_snd fetch_writes)

lemma fetchDnsRecord_served:
  assumes "served (Suc n) w"
  shows "fetchDnsRecord z t host w =
           (Inr (lookup host w), snd (fetch t (ListRecords z ''A'' host) w))"
proof -
  obtain a v where f: "fetch t (ListRecords z ''A'' host) w = (a, v)"
    by (cases "fetch t (ListRecords z ''A'' host) w")
  have a: "a = Inr (accepted (Records
             (filter (\<lambda>r. dns_type r = ''A'' \<and> dns_name r = host) (records (cf w)))))"
    using fetch_served(1)[OF assms, of t "ListRecords z ''A'' host"] f by simp
  show ?thesis
    by (simp add: fetchDnsRecord_def f a accepted_def isCloudflareResponse_def
          successIsFalse_def lookup_def)
qed

lemma lookup_after_list:
  "lookup host (snd (fetch t (ListRecords z ty n) w)) = lookup host w"
  if "served (Suc k) w"
  using fetch_served(2)[OF that, of t "ListRecords z ty n"] by (simp add: lookup_def)

lemma sync_empty:
  "syncDnsRecord env host [] w = (Inr (), w)"
  by (simp add: syncDnsRecord_def)

lemma sync_no_credentials:
  assumes "ip \<noteq> []"
    and "orEmpty (CLOUDFLARE_API_TOKEN env) = [] \<or> orEmpty (CLOUDFLARE_ZONE_ID env) = []"
  shows "syncDnsRecord env host ip w =
     (Inr (), w\<lparr>console := console w @
        [Warn (''Skipping DNS sync for '' @ host @
           '' because CLOUDFLARE_API_TOKEN or CLOUDFLARE_ZONE_ID is not set.'')]\<rparr>)"
  using assms by (auto simp add: syncDnsRecord_def Let_def)

lemma sync_same_content:
  assumes "ip \<noteq> []"
    and "orEmpty (CLOUDFLARE_API_TOKEN env) = t" and "orEmpty (CLOUDFLARE_ZONE_ID env) = z"
    and "t \<noteq> []" and "z \<noteq> []"
    and "fetchDnsRecord z t host w = (Inr (Some x), v)" and "content x = ip"
  shows "syncDnsRecord env host ip w = (Inr (), v)" and "writes v = writes w"
proof -
  show "syncDnsRecord env host ip w = (Inr (), v)"
    using assms by (simp add: syncDnsRecord_def Let_def)
  show "writes v = writes w"
    using fetchDnsRecord_writes[of z t host w] assms(6) by simp
qed

lemma sync_failed_lookup:
  assumes "ip \<noteq> []"
    and "orEmpty (CLOUDFLARE_API_TOKEN env) = t" and "orEmpty (CLOUDFLARE_ZONE_ID env) = z"
    and "t \<noteq> []" and "z \<noteq> []"
    and "fetchDnsRecord z t host w = (Inl e, v)"
  shows "syncDnsRecord env host ip w = (Inl e, v)"
  using assms by (simp add: syncDnsRecord_def Let_def)

lemma sync_write:
  assumes "ip \<noteq> []"
    and "orEmpty (CLOUDFLARE_API_TOKEN env) = t" and "orEmpty (CLOUDFLARE_ZONE_ID env) = z"
    and "t \<noteq> []" and "z \<noteq> []"
    and "fetchDnsRecord z t host w = (Inr existing, v)"
    and "\<not> (case existing of Some x \<Rightarrow> content x = ip | None \<Rightarrow> False)"
  shows "\<exists>b. body_type b = ''A'' \<and> body_name b = host \<and> body_content b = ip \<and>
           snd (syncDnsRecord env host ip w) =
             snd (fetch t (case existing of Some x \<Rightarrow> UpdateRecord z (dns_id x) b
                           | None \<Rightarrow> CreateRecord z b) v) \<and>
           (\<forall>x. fst (fetch t (case existing of Some x \<Rightarrow> UpdateRecord z (dns_id x) b
                             | None \<Rightarrow> CreateRecord z b) v) = Inr (accepted x) \<longrightarrow>
                fst (syncDnsRecord env host ip w) = Inr ())"
proof (cases existing)
  case None
  show ?thesis
    unfolding None using assms(1-6)[unfolded None]
    by (intro exI[of _ "\<lparr>body_type = ''A'', body_name = host, body_content = ip,
                          body_ttl = 1, body_proxied = False\<rparr>"])
       (auto simp add: syncDnsRecord_def Let_def accepted_def isCloudflareResponse_def
          successIsFalse_def split: prod.splits sum.splits)
next
  case (Some x)
  show ?thesis
    unfolding Some using assms(1-6)[unfolded Some] assms(7)[unfolded Some]
    by (intro exI[of _ "\<lparr>body_type = ''A'', body_name = host, body_content = ip,
                          body_ttl = (case ttl x of Some t \<Rightarrow> t | None \<Rightarrow> 1),
                          body_proxied = (case proxied x of Some q \<Rightarrow> q | None \<Rightarrow> False)\<rparr>"])
       (auto simp add: syncDnsRecord_def Let_def accepted_def isCloudflareResponse_def
          successIsFalse_def split: prod.splits sum.splits)
qed

lemma sync_writes_le:
  "length (writes (snd (syncDnsRecord env host ip w))) \<le> Suc (length (writes w))"
proof (cases "ip = [] \<or> orEmpty (CLOUDFLARE_API_TOKEN env) = [] \<or>
              orEmpty (CLOUDFLARE_ZONE_ID env) = []")
  case True
  have "writes (snd (syncDnsRecord env host ip w)) = writes w"
  proof (cases "ip = []")
    case e: True
    show ?thesis
      unfolding e by (simp add: sync_empty)
  next
    case e: False
    from e True have "orEmpty (CLOUDFLARE_API_TOKEN env) = [] \<or>
        orEmpty (CLOUDFLARE_ZONE_ID env) = []"
      by simp
    from sync_no_credentials[OF e this] show ?thesis
      by (simp add: writes_def)
  qed
  then show ?thesis
    by simp
next
  case False
  obtain r v where f: "fetchDnsRecord (orEmpty (CLOUDFLARE_ZONE_ID env))
      (orEmpty (CLOUDFLARE_API_TOKEN env)) host w = (r, v)"
    by (cases "fetchDnsRecord (orEmpty (CLOUDFLARE_ZONE_ID env))
      (orEmpty (CLOUDFLARE_API_TOKEN env)) host w")
  have v: "writes v = writes w"
    using fetchDnsRecord_writes[of "orEmpty (CLOUDFLARE_ZONE_ID env)"
        "orEmpty (CLOUDFLARE_API_TOKEN env)" host w] f by simp
  show ?thesis
  proof (cases r)
    case (Inl e)
    then show ?thesis
      using sync_failed_lookup[OF _ refl refl _ _ f[unfolded Inl]] False v by simp
  next
    case (Inr existing)
    show ?thesis
    proof (cases "case existing of Some x \<Rightarrow> content x = ip | None \<Rightarrow> False")
      case True
      then have "syncDnsRecord env host ip w = (Inr (), v)"
        using False f Inr by (simp add: syncDnsRecord_def Let_def)
      then show ?thesis
        using v by simp
    next
      case c: False
      from sync_write[OF _ refl refl _ _ f[unfolded Inr] c] False
      obtain rq where "snd (syncDnsRecord env host ip w) =
          snd (fetch (orEmpty (CLOUDFLARE_API_TOKEN env)) rq v)"
        by blast
      then show ?thesis
        using v by (simp add: fetch_writes)
    qed
  qed
qed

lemma update_settles:
  assumes "filter (\<lambda>r. dns_type r = ''A'' \<and> dns_name r = host) rs = x # xs"
    and "body_type b = ''A''" and "body_name b = host"
  shows "\<exists>y ys. filter (\<lambda>r. dns_type r = ''A'' \<and> dns_name r = host)
                  (map (\<lambda>r. if dns_id r = dns_id x then written b r else r) rs) = y # ys \<and>
                content y = body_content b"
  using assms(1)
proof (induction rs)
  case Nil
  then show ?case
    by simp
next
  case (Cons r rs)
  show ?case
  proof (cases "dns_id r = dns_id x")
    case True
    then show ?thesis
      using assms(2,3) by (simp add: written_def)
  next
    case False
    have n: "\<not> (dns_type r = ''A'' \<and> dns_name r = host)"
      using Cons.prems False by (auto split: if_splits)
    then have "filter (\<lambda>r. dns_type r = ''A'' \<and> dns_name r = host) rs = x # xs"
      using Cons.prems by (simp split: if_splits)
    from Cons.IH[OF this] show ?thesis
      using n False by auto
  qed
qed

lemma lookup_in_records:
  assumes "lookup host w = Some x"
  shows "\<exists>xs. filter (\<lambda>r. dns_type r = ''A'' \<and> dns_name r = host) (records (cf w)) = x # xs"
    and "filter (\<lambda>r. dns_id r = dns_id x) (records (cf w)) \<noteq> []"
proof -
  show a: "\<exists>xs. filter (\<lambda>r. dns_type r = ''A'' \<and> dns_name r = host) (records (cf w)) = x # xs"
    using assms by (simp add: lookup_def split: list.splits)
  then have "x \<in> set (filter (\<lambda>r. dns_type r = ''A'' \<and> dns_name r = host) (records (cf w)))"
    by (metis list.set_intros(1))
  then have "x \<in> set (records (cf w))"
    by simp
  then show "filter (\<lambda>r. dns_id r = dns_id x) (records (cf w)) \<noteq> []"
    by (auto simp add: filter_empty_conv)
qed

text \<open>A write that the provider serves leaves a record that the next lookup finds.\<close>

lemma served_write_settles:
  assumes "served (Suc n) v"
    and "body_type b = ''A''" and "body_name b = host" and "body_content b = ip"
  shows "\<exists>x. fst (fetch t (case lookup host v of Some x \<Rightarrow> UpdateRecord z (dns_id x) b
                           | None \<Rightarrow> CreateRecord z b) v) = Inr (accepted x)"
    and "\<exists>y. lookup host (snd (fetch t (case lookup host v of
                 Some x \<Rightarrow> UpdateRecord z (dns_id x) b | None \<Rightarrow> CreateRecord z b) v)) = Some y \<and>
             content y = ip"
proof -
  let ?rq = "case lookup host v of Some x \<Rightarrow> UpdateRecord z (dns_id x) b
             | None \<Rightarrow> CreateRecord z b"
  have "(\<exists>x. fst (fetch t ?rq v) = Inr (accepted x)) \<and>
        (\<exists>y. lookup host (snd (fetch t ?rq v)) = Some y \<and> content y = ip)"
  proof (cases "lookup host v")
    case None
    then have e: "filter (\<lambda>r. dns_type r = ''A'' \<and> dns_name r = host) (records (cf v)) = []"
      by (simp add: lookup_def split: list.splits)
    show ?thesis
      unfolding None option.case
      using e assms(2-4)
      by (simp add: fetch_served[OF assms(1)] lookup_def Let_def written_def; blast)
  next
    case (Some x)
    from lookup_in_records[OF Some] obtain xs r rs where
      f: "filter (\<lambda>r. dns_type r = ''A'' \<and> dns_name r = host) (records (cf v)) = x # xs" and
      g: "filter (\<lambda>r. dns_id r = dns_id x) (records (cf v)) = r # rs"
      by (auto simp add: neq_Nil_conv)
    from update_settles[OF f assms(2,3)] obtain y ys where
      "filter (\<lambda>r. dns_type r = ''A'' \<and> dns_name r = host)
         (map (\<lambda>r. if dns_id r = dns_id x then written b r else r) (records (cf v))) = y # ys"
      "content y = body_content b"
      by blast
    then show ?thesis
      unfolding Some option.case
      using assms(4) by (simp add: fetch_served[OF assms(1)] lookup_def g; blast)
  qed
  then show "\<exists>x. fst (fetch t ?rq v) = Inr (accepted x)"
    and "\<exists>y. lookup host (snd (fetch t ?rq v)) = Some y \<and> content y = ip"
    by blast+
qed

lemma sync_first:
  assumes "ip \<noteq> []"
    and "orEmpty (CLOUDFLARE_API_TOKEN env) \<noteq> []" and "orEmpty (CLOUDFLARE_ZONE_ID env) \<noteq> []"
    and "served 2 w"
  shows "fst (syncDnsRecord env host ip w) = Inr () \<and>
         (\<exists>y. lookup host (snd (syncDnsRecord env host ip w)) = Some y \<and> content y = ip) \<and>
         (faults (cf (snd (syncDnsRecord env host ip w))) = tl (faults (cf w)) \<or>
          faults (cf (snd (syncDnsRecord env host ip w))) = tl (tl (faults (cf w))))"
proof -
  let ?t = "orEmpty (CLOUDFLARE_API_TOKEN env)" and ?z = "orEmpty (CLOUDFLARE_ZONE_ID env)"
  let ?v = "snd (fetch ?t (ListRecords ?z ''A'' host) w)"
  have s2: "served (Suc 1) w"
    using assms(4) by (simp add: numeral_2_eq_2)
  have f: "fetchDnsRecord ?z ?t host w = (Inr (lookup host w), ?v)"
    by (rule fetchDnsRecord_served[OF s2])
  have fv: "faults (cf ?v) = tl (faults (cf w))"
    by (rule fetch_served(3)[OF s2])
  have sv: "served (Suc 0) ?v"
    using served_next[OF s2 fv] by simp
  have lv: "lookup host ?v = lookup host w"
    by (rule lookup_after_list[OF s2])
  show ?thesis
  proof (cases "case lookup host w of Some x \<Rightarrow> content x = ip | None \<Rightarrow> False")
    case True
    then obtain x where x: "lookup host w = Some x" "content x = ip"
      by (auto split: option.splits)
    have "syncDnsRecord env host ip w = (Inr (), ?v)"
      by (rule sync_same_content(1)[OF assms(1) refl refl assms(2,3) f[unfolded x(1)] x(2)])
    then show ?thesis
      using fv lv x by simp
  next
    case False
    from sync_write[OF assms(1) refl refl assms(2,3) f False] obtain b where
      b: "body_type b = ''A''" "body_name b = host" "body_content b = ip" and
      s: "snd (syncDnsRecord env host ip w) =
            snd (fetch ?t (case lookup host w of Some x \<Rightarrow> UpdateRecord ?z (dns_id x) b
                           | None \<Rightarrow> CreateRecord ?z b) ?v)" and
      r: "\<forall>x. fst (fetch ?t (case lookup host w of Some x \<Rightarrow> UpdateRecord ?z (dns_id x) b
                             | None \<Rightarrow> CreateRecord ?z b) ?v) = Inr (accepted x) \<longrightarrow>
               fst (syncDnsRecord env host ip w) = Inr ()"
      by blast
    from served_write_settles[OF sv b, of ?t ?z] r s
    have "fst (syncDnsRecord env host ip w) = Inr ()"
      and "\<exists>y. lookup host (snd (syncDnsRecord env host ip w)) = Some y \<and> content y = ip"
      unfolding lv by auto
    moreover have "faults (cf (snd (syncDnsRecord env host ip w))) = tl (tl (faults (cf w)))"
      unfolding s by (simp add: fetch_served(3)[OF sv] fv)
    ultimately show ?thesis
      by simp
  qed
qed

lemma sync_second:
  assumes "ip \<noteq> []"
    and "orEmpty (CLOUDFLARE_API_TOKEN env) \<noteq> []" and "orEmpty (CLOUDFLARE_ZONE_ID env) \<noteq> []"
    and "served 1 w" and "lookup host w = Some y" and "content y = ip"
  shows "fst (syncDnsRecord env host ip w) = Inr () \<and>
         writes (snd (syncDnsRecord env host ip w)) = writes w"
proof -
  let ?t = "orEmpty (CLOUDFLARE_API_TOKEN env)" and ?z = "orEmpty (CLOUDFLARE_ZONE_ID env)"
  have s1: "served (Suc 0) w"
    using assms(4) by simp
  have f: "fetchDnsRecord ?z ?t host w =
      (Inr (Some y), snd (fetch ?t (ListRecords ?z ''A'' host) w))"
    using fetchDnsRecord_served[OF s1, of ?z ?t host] assms(5) by simp
  from sync_same_content[OF assms(1) refl refl assms(2,3) f assms(6)]
  show ?thesis
    by simp
qed

lemma served_three:
  assumes "served 3 w"
  shows "served 2 w"
    and "faults (cf v) = tl (faults (cf w)) \<or> faults (cf v) = tl (tl (faults (cf w))) \<Longrightarrow>
         served 1 v"
proof -
  have a: "served (Suc 2) w"
    using assms by (simp add: numeral_3_eq_3 numeral_2_eq_2)
  show "served 2 w"
    by (rule served_less[OF a])
  show "served 1 v"
    if "faults (cf v) = tl (faults (cf w)) \<or> faults (cf v) = tl (tl (faults (cf w)))"
    using that a
    by (cases "faults (cf w)"; cases "tl (faults (cf w))"; cases "tl (tl (faults (cf w)))")
       (auto simp add: served_def numeral_2_eq_2)
qed

text \<open>
  Claim C4, as stated, fails: when the provider rejects the write, the second call of
  the reconciler with the same host name and address sends the write again.  Here the
  provider has no record and answers each of the two POST requests with an HTTP
  failure; it receives two writes.
\<close>

theorem two_writes_counterexample:
  "writes (world0 [] [None, Some (HttpFailure []), None, Some (HttpFailure [])]) = [] \<and>
   writes (snd (syncDnsRecord env0 ''a.example.com'' ''1.2.3.4''
             (snd (syncDnsRecord env0 ''a.example.com'' ''1.2.3.4''
                (world0 [] [None, Some (HttpFailure []), None, Some (HttpFailure [])]))))) =
     [CreateRecord ''zone'' \<lparr>body_type = ''A'', body_name = ''a.example.com'',
                              body_content = ''1.2.3.4'', body_ttl = 1, body_proxied = False\<rparr>,
      CreateRecord ''zone'' \<lparr>body_type = ''A'', body_name = ''a.example.com'',
                              body_content = ''1.2.3.4'', body_ttl = 1, body_proxied = False\<rparr>]"
  by (simp add: sync_eval writes_def world0_def env0_def)

text \<open>
  Claim C4, amended.  For every host name the reconciler sends no write to the
  provider when the address is empty (it returns at once), when the token or the zone
  is not configured (it only logs a warning and returns without error), or when the
  lookup returns a record whose content is the address.  One call sends at most one
  write.  When the provider serves the next three requests without a fault (the lookup
  and the write of the first call, the lookup of the second), both of two calls in a
  row with the same host name and address return without error and the second sends no
  write: the two calls send at most one.
\<close>

theorem reconcile_idempotent:
  "syncDnsRecord env host [] w = (Inr (), w) \<and>
   (ip \<noteq> [] \<and>
    (orEmpty (CLOUDFLARE_API_TOKEN env) = [] \<or> orEmpty (CLOUDFLARE_ZONE_ID env) = []) \<longrightarrow>
      syncDnsRecord env host ip w =
        (Inr (), w\<lparr>console := console w @
           [Warn (''Skipping DNS sync for '' @ host @
              '' because CLOUDFLARE_API_TOKEN or CLOUDFLARE_ZONE_ID is not set.'')]\<rparr>)) \<and>
   (ip \<noteq> [] \<and> orEmpty (CLOUDFLARE_API_TOKEN env) \<noteq> [] \<and>
    orEmpty (CLOUDFLARE_ZONE_ID env) \<noteq> [] \<and>
    fetchDnsRecord (orEmpty (CLOUDFLARE_ZONE_ID env)) (orEmpty (CLOUDFLARE_API_TOKEN env))
      host w = (Inr (Some x), v) \<and>
    content x = ip \<longrightarrow>
      syncDnsRecord env host ip w = (Inr (), v) \<and> writes v = writes w) \<and>
   length (writes (snd (syncDnsRecord env host ip w))) \<le> Suc (length (writes w)) \<and>
   (served 3 w \<longrightarrow>
      fst (syncDnsRecord env host ip w) = Inr () \<and>
      fst (syncDnsRecord env host ip (snd (syncDnsRecord env host ip w))) = Inr () \<and>
      writes (snd (syncDnsRecord env host ip (snd (syncDnsRecord env host ip w)))) =
        writes (snd (syncDnsRecord env host ip w)))"
proof (intro conjI impI)
  show "syncDnsRecord env host [] w = (Inr (), w)"
    by (rule sync_empty)
next
  assume "ip \<noteq> [] \<and>
    (orEmpty (CLOUDFLARE_API_TOKEN env) = [] \<or> orEmpty (CLOUDFLARE_ZONE_ID env) = [])"
  then show "syncDnsRecord env host ip w =
        (Inr (), w\<lparr>console := console w @
           [Warn (''Skipping DNS sync for '' @ host @
              '' because CLOUDFLARE_API_TOKEN or CLOUDFLARE_ZONE_ID is not set.'')]\<rparr>)"
    using sync_no_credentials[of ip env host w] by blast
next
  assume h: "ip \<noteq> [] \<and> orEmpty (CLOUDFLARE_API_TOKEN env) \<noteq> [] \<and>
    orEmpty (CLOUDFLARE_ZONE_ID env) \<noteq> [] \<and>
    fetchDnsRecord (orEmpty (CLOUDFLARE_ZONE_ID env)) (orEmpty (CLOUDFLARE_API_TOKEN env))
      host w = (Inr (Some x), v) \<and>
    content x = ip"
  from h show "syncDnsRecord env host ip w = (Inr (), v)"
    using sync_same_content(1)[OF _ refl refl, of ip env host w x v] by blast
  from h show "writes v = writes w"
    using sync_same_content(2)[OF _ refl refl, of ip env host w x v] by blast
next
  show "length (writes (snd (syncDnsRecord env host ip w))) \<le> Suc (length (writes w))"
    by (rule sync_writes_le)
next
  assume s: "served 3 w"
  have "fst (syncDnsRecord env host ip w) = Inr () \<and>
      fst (syncDnsRecord env host ip (snd (syncDnsRecord env host ip w))) = Inr () \<and>
      writes (snd (syncDnsRecord env host ip (snd (syncDnsRecord env host ip w)))) =
        writes (snd (syncDnsRecord env host ip w))"
  proof (cases "ip = []")
    case True
    show ?thesis
      unfolding True by (simp add: sync_empty)
  next
    case e: False
    show ?thesis
    proof (cases "orEmpty (CLOUDFLARE_API_TOKEN env) = [] \<or> orEmpty (CLOUDFLARE_ZONE_ID env) = []")
      case True
      show ?thesis
        by (simp add: sync_no_credentials[OF e True] writes_def)
    next
      case False
      then have c: "orEmpty (CLOUDFLARE_API_TOKEN env) \<noteq> []" "orEmpty (CLOUDFLARE_ZONE_ID env) \<noteq> []"
        by simp_all
      from sync_first[OF e c served_three(1)[OF s], of host] obtain y where
        a: "fst (syncDnsRecord env host ip w) = Inr ()" and
        y: "lookup host (snd (syncDnsRecord env host ip w)) = Some y" "content y = ip" and
        f: "faults (cf (snd (syncDnsRecord env host ip w))) = tl (faults (cf w)) \<or>
            faults (cf (snd (syncDnsRecord env host ip w))) = tl (tl (faults (cf w)))"
        by blast
      from sync_second[OF e c served_three(2)[OF s f] y] a show ?thesis
        by simp
    qed
  qed
  then show "fst (syncDnsRecord env host ip w) = Inr ()"
    and "fst (syncDnsRecord env host ip (snd (syncDnsRecord env host ip w))) = Inr ()"
    and "writes (snd (syncDnsRecord env host ip (snd (syncDnsRecord env host ip w)))) =
        writes (snd (syncDnsRecord env host ip w))"
    by simp_all
qed

theorem reconcile_idempotent_witness:
  "writes (snd (syncDnsRecord env0 ''a.example.com'' ''1.2.3.4''
             (snd (syncDnsRecord env0 ''a.example.com'' ''1.2.3.4'' (world0 [] []))))) =
   writes (snd (syncDnsRecord env0 ''a.example.com'' ''1.2.3.4'' (world0 [] []))) \<and>
   writes (snd (syncDnsRecord env0 ''a.example.com'' ''1.2.3.4'' (world0 [] []))) =
     [CreateRecord ''zone'' \<lparr>body_type = ''A'', body_name = ''a.example.com'',
                              body_content = ''1.2.3.4'', body_ttl = 1, body_proxied = False\<rparr>]"
proof -
  have s: "served 3 (world0 [] [])"
    by (simp add: served_def world0_def)
  have a: "writes (snd (syncDnsRecord env0 ''a.example.com'' ''1.2.3.4''
             (snd (syncDnsRecord env0 ''a.example.com'' ''1.2.3.4'' (world0 [] []))))) =
     writes (snd (syncDnsRecord env0 ''a.example.com'' ''1.2.3.4'' (world0 [] [])))"
    by (rule reconcile_idempotent[THEN conjunct2, THEN conjunct2, THEN conjunct2, THEN conjunct2,
          THEN mp, OF s, THEN conjunct2, THEN conjunct2])
  have b: "writes (snd (syncDnsRecord env0 ''a.example.com'' ''1.2.3.4'' (world0 [] []))) =
     [CreateRecord ''zone'' \<lparr>body_type = ''A'', body_name = ''a.example.com'',
                              body_content = ''1.2.3.4'', body_ttl = 1, body_proxied = False\<rparr>]"
    by (simp add: sync_eval writes_def world0_def env0_def)
  from a b show ?thesis
    by (rule conjI)
qed

end
